theory Spec2Isabelle
  imports Complex_Main "HOL-Library.Word"
begin

section \<open>JavaScript strings and primitive values\<close>

text \<open>
  A JavaScript string is a sequence of 16-bit code units; \<open>length\<close>, \<open>slice\<close>, \<open>trim\<close> and the
  regular expression class \<open>\s\<close> all work on code units. \<open>lit\<close> turns an ASCII literal of the
  source into such a sequence.
\<close>

type_synonym jstr = "16 word list"

definition lit :: "string \<Rightarrow> jstr" where
  "lit s = map (\<lambda>c. of_nat (of_char c)) s"

text \<open>
  The code units matched by \<open>\s\<close> and stripped by \<open>String.prototype.trim\<close> (ECMAScript
  WhiteSpace and LineTerminator): TAB, LF, VT, FF, CR, SP, U+00A0, U+1680, U+2000..U+200A,
  U+2028, U+2029, U+202F, U+205F, U+3000, U+FEFF.
\<close>

definition is_ws :: "16 word \<Rightarrow> bool" where
  "is_ws c \<longleftrightarrow>
     c \<in> {9, 10, 11, 12, 13, 32, 160, 5760, 8232, 8233, 8239, 8287, 12288, 65279}
     \<or> (8192 \<le> c \<and> c \<le> 8202)"

text \<open>\<open>s.trim()\<close>: whitespace is removed from both ends.\<close>

definition trim :: "jstr \<Rightarrow> jstr" where
  "trim s = rev (dropWhile is_ws (rev (dropWhile is_ws s)))"

text \<open>
  \<open>s.replace(/\s+/g, "_")\<close>: the scan goes left to right; at a whitespace code unit the
  greedy \<open>\s+\<close> consumes the whole run and one underscore (code unit 95) is written, any other
  code unit is copied.
\<close>

function replace_ws :: "jstr \<Rightarrow> jstr" where
  "replace_ws [] = []"
| "replace_ws (c # cs) =
     (if is_ws c then 95 # replace_ws (dropWhile is_ws cs) else c # replace_ws cs)"
  by pat_completeness auto
termination
  by (relation "measure length") (auto simp: le_imp_less_Suc length_dropWhile_le)

text \<open>\<open>xs.join(sep)\<close> on an array of strings.\<close>

fun js_join :: "jstr \<Rightarrow> jstr list \<Rightarrow> jstr" where
  "js_join sep [] = []"
| "js_join sep [x] = x"
| "js_join sep (x # y # ys) = x @ sep @ js_join sep (y # ys)"

text \<open>
  A JavaScript number is an IEEE-754 double. The functions of this repository that are
  modelled here observe a number in two ways only: through ToBoolean (false exactly for
  \<open>+0\<close>, \<open>-0\<close> and \<open>NaN\<close>) and through ToString. A number is therefore carried as these two
  observations; every statement below holds whatever text a number prints as.
\<close>

datatype number = Number (num_truthy: bool) (num_text: jstr)

datatype prim = PUndefined | PNull | PBool bool | PNum number | PStr jstr

text \<open>\<open>String(p)\<close> on a primitive value.\<close>

fun String_prim :: "prim \<Rightarrow> jstr" where
  "String_prim PUndefined = lit ''undefined''"
| "String_prim PNull = lit ''null''"
| "String_prim (PBool b) = (if b then lit ''true'' else lit ''false'')"
| "String_prim (PNum n) = num_text n"
| "String_prim (PStr s) = s"

text \<open>\<open>p ?? d\<close>: the default replaces \<open>null\<close> and \<open>undefined\<close> only.\<close>

fun nullish :: "prim \<Rightarrow> prim \<Rightarrow> prim" where
  "nullish PUndefined d = d"
| "nullish PNull d = d"
| "nullish p d = p"

section \<open>Idempotency keys: \<open>stableKey\<close>\<close>

text \<open>
  \<^verbatim>\<open>
  export function stableKey(...parts: Array<string | number | boolean | null | undefined
                                   | Array<string | number | boolean | null | undefined>>) {
      const raw = parts.flat().map((p) => String(p ?? "")).join(":").trim();
      return raw.replace(/\s+/g, "_").slice(0, 160);
  }
  \<close>
  An argument is a primitive or an array of primitives; \<open>flat()\<close> removes one level of
  nesting.
\<close>

datatype part = Scalar prim | Nested "prim list"

fun flat1 :: "part \<Rightarrow> prim list" where
  "flat1 (Scalar p) = [p]"
| "flat1 (Nested ps) = ps"

definition flat :: "part list \<Rightarrow> prim list" where
  "flat parts = concat (map flat1 parts)"

definition joined :: "part list \<Rightarrow> jstr" where
  "joined parts = js_join (lit '':'') (map (\<lambda>p. String_prim (nullish p (PStr []))) (flat parts))"

definition stableKey :: "part list \<Rightarrow> jstr" where
  "stableKey parts = (let raw = trim (joined parts) in take 160 (replace_ws raw))"

text \<open>
  The maximal runs of non-whitespace code units of a string, in order: the reading of
  a string as words against which the key is compared below.
\<close>

function ws_words :: "jstr \<Rightarrow> jstr list" where
  "ws_words [] = []"
| "ws_words (c # cs) =
     (if is_ws c then ws_words cs
      else (c # takeWhile (\<lambda>x. \<not> is_ws x) cs) # ws_words (dropWhile (\<lambda>x. \<not> is_ws x) cs))"
  by pat_completeness auto
termination
  by (relation "measure length") (auto simp: le_imp_less_Suc length_dropWhile_le)

text \<open>
  The keys of the inbox page and of the two order pages:
  \<^verbatim>\<open>
  function IdemKey(id: string, action: string) { return `admin-inbox:${id}:${action}`; }
  function idempotencyKey(orderId: string, action: string) {
    return `admin-order:${orderId}:${action}`;
  }
  \<close>
\<close>

definition IdemKey :: "jstr \<Rightarrow> jstr \<Rightarrow> jstr" where
  "IdemKey ident action = lit ''admin-inbox:'' @ ident @ lit '':'' @ action"

definition idempotencyKey :: "jstr \<Rightarrow> jstr \<Rightarrow> jstr" where
  "idempotencyKey orderId action = lit ''admin-order:'' @ orderId @ lit '':'' @ action"

text \<open>
  What a run of JavaScript code can read besides its arguments: the clock (\<open>Date.now()\<close>)
  and the random source (\<open>entropy\<close> gives the values \<open>crypto.randomUUID()\<close> is going to
  return, \<open>drawn\<close> counts those already returned). A call is a function from the world
  before it to its result and the world after it. The three key functions read and write
  nothing of it.
\<close>

record world =
  clock :: nat
  entropy :: "nat \<Rightarrow> jstr"
  drawn :: nat

type_synonym 'a run = "world \<Rightarrow> 'a \<times> world"

definition stableKey_run :: "part list \<Rightarrow> jstr run" where
  "stableKey_run parts w = (stableKey parts, w)"

definition IdemKey_run :: "jstr \<Rightarrow> jstr \<Rightarrow> jstr run" where
  "IdemKey_run ident action w = (IdemKey ident action, w)"

definition idempotencyKey_run :: "jstr \<Rightarrow> jstr \<Rightarrow> jstr run" where
  "idempotencyKey_run orderId action w = (idempotencyKey orderId action, w)"

section \<open>JavaScript values\<close>

text \<open>
  The values \<open>JSON.parse\<close> yields, and \<open>undefined\<close>: what a response body and the fields
  read from an error object hold. An object is the list of its own properties.
\<close>

datatype jsval = Prim prim | Arr "jsval list" | Obj "(jstr \<times> jsval) list"

datatype js_error = TypeError | URIError

fun is_nullish :: "jsval \<Rightarrow> bool" where
  "is_nullish (Prim PUndefined) = True"
| "is_nullish (Prim PNull) = True"
| "is_nullish v = False"

text \<open>ToBoolean.\<close>

fun truthy :: "jsval \<Rightarrow> bool" where
  "truthy (Prim PUndefined) = False"
| "truthy (Prim PNull) = False"
| "truthy (Prim (PBool b)) = b"
| "truthy (Prim (PNum n)) = num_truthy n"
| "truthy (Prim (PStr s)) = (s \<noteq> [])"
| "truthy (Arr xs) = True"
| "truthy (Obj kvs) = True"

text \<open>
  Reading the property \<open>k\<close> of a value that is neither \<open>null\<close> nor \<open>undefined\<close>, for the
  property names used in this repository (none of them is inherited from a prototype, an
  array index or \<open>length\<close>): an object gives its own property, anything else \<open>undefined\<close>.
\<close>

fun own :: "jsval \<Rightarrow> jstr \<Rightarrow> jsval" where
  "own (Obj kvs) k = (case map_of kvs k of Some v \<Rightarrow> v | None \<Rightarrow> Prim PUndefined)"
| "own v k = Prim PUndefined"

text \<open>\<open>v.k\<close> throws a TypeError on \<open>null\<close> and \<open>undefined\<close>; \<open>v?.k\<close> gives \<open>undefined\<close> there.\<close>

definition get :: "jsval \<Rightarrow> jstr \<Rightarrow> js_error + jsval" where
  "get v k = (if is_nullish v then Inl TypeError else Inr (own v k))"

definition opt_get :: "jsval \<Rightarrow> jstr \<Rightarrow> js_error + jsval" where
  "opt_get v k = (if is_nullish v then Inr (Prim PUndefined) else get v k)"

definition and_then :: "'e + 'a \<Rightarrow> ('a \<Rightarrow> 'e + 'b) \<Rightarrow> 'e + 'b" where
  "and_then r f = (case r of Inl e \<Rightarrow> Inl e | Inr x \<Rightarrow> f x)"

fun all_ok :: "('e + 'a) list \<Rightarrow> 'e + 'a list" where
  "all_ok [] = Inr []"
| "all_ok (Inl e # rs) = Inl e"
| "all_ok (Inr x # rs) = (case all_ok rs of Inl e \<Rightarrow> Inl e | Inr xs \<Rightarrow> Inr (x # xs))"

text \<open>
  \<open>String(v)\<close>. A primitive converts as above. An array converts through \<open>join(",")\<close>, where
  \<open>null\<close> and \<open>undefined\<close> elements give the empty string and every other element is converted
  in turn. An object converts through OrdinaryToPrimitive: \<open>toString\<close> is looked up and called
  if it is callable, then \<open>valueOf\<close>. A plain object inherits \<open>Object.prototype.toString\<close> and
  gives \<open>"[object Object]"\<close>; an object with an own property \<open>toString\<close> (never callable
  among these values) is left with \<open>valueOf\<close>, which does not return a primitive, and the
  conversion throws a TypeError.
\<close>

fun js_String :: "jsval \<Rightarrow> js_error + jstr" where
  "js_String (Prim p) = Inr (String_prim p)"
| "js_String (Arr xs) =
     (case all_ok (map (\<lambda>v. if is_nullish v then Inr [] else js_String v) xs) of
        Inl e \<Rightarrow> Inl e
      | Inr ss \<Rightarrow> Inr (js_join (lit '','') ss))"
| "js_String (Obj kvs) =
     (if lit ''toString'' \<in> fst ` set kvs then Inl TypeError else Inr (lit ''[object Object]''))"

fun is_string :: "jsval \<Rightarrow> bool" where
  "is_string (Prim (PStr s)) = True"
| "is_string v = False"

fun isArray :: "jsval \<Rightarrow> bool" where
  "isArray (Arr xs) = True"
| "isArray v = False"

text \<open>\<open>a[0]\<close> on a value that is not nullish: the first element of an array, if any.\<close>

fun index0 :: "jsval \<Rightarrow> jsval" where
  "index0 (Arr (x # xs)) = x"
| "index0 v = Prim PUndefined"

section \<open>\<open>apiErrorMessage\<close>\<close>

text \<open>
  \<^verbatim>\<open>
  export function apiErrorMessage(err: unknown, fallback = "Ocorreu um erro") {
      const parsed = (err ?? {}) as ApiErrorShape;
      const data = parsed.response?.data;
      if (typeof data === "string") return data;
      if (data?.error) return String(data.error);
      if (data?.message) return String(data.message);
      if (Array.isArray(data?.issues)) {
          const first = data.issues[0];
          if (first?.message) return String(first.message);
          if (first?.msg) return String(first.msg);
      }
      return parsed.message ? String(parsed.message) : fallback;
  }
  \<close>
  Every property read and every \<open>String\<close> of the source is a step that can throw. The block
  of \<open>Array.isArray\<close> either returns (\<open>Some\<close>) or falls through (\<open>None\<close>). An omitted
  \<open>fallback\<close> is \<open>None\<close>.
\<close>

definition apiErrorMessage :: "jsval \<Rightarrow> jstr option \<Rightarrow> js_error + jstr" where
  "apiErrorMessage err fallback_arg =
     (let fallback = (case fallback_arg of None \<Rightarrow> lit ''Ocorreu um erro'' | Some f \<Rightarrow> f);
          parsed = (if is_nullish err then Obj [] else err)
      in and_then (get parsed (lit ''response'')) (\<lambda>response.
         and_then (opt_get response (lit ''data'')) (\<lambda>data.
         if is_string data then js_String data
         else and_then (opt_get data (lit ''error'')) (\<lambda>e.
         if truthy e then and_then (get data (lit ''error'')) js_String
         else and_then (opt_get data (lit ''message'')) (\<lambda>m.
         if truthy m then and_then (get data (lit ''message'')) js_String
         else and_then (opt_get data (lit ''issues'')) (\<lambda>issues.
         and_then
           (if isArray issues
            then and_then (get data (lit ''issues'')) (\<lambda>issues'.
                 let first = index0 issues'
                 in and_then (opt_get first (lit ''message'')) (\<lambda>fm.
                    if truthy fm
                    then and_then (get first (lit ''message'')) (\<lambda>v. map_sum id Some (js_String v))
                    else and_then (opt_get first (lit ''msg'')) (\<lambda>fg.
                    if truthy fg
                    then and_then (get first (lit ''msg'')) (\<lambda>v. map_sum id Some (js_String v))
                    else Inr None)))
            else Inr None)
           (\<lambda>returned. case returned of
              Some s \<Rightarrow> Inr s
            | None \<Rightarrow> and_then (get parsed (lit ''message'')) (\<lambda>pm.
                       if truthy pm then and_then (get parsed (lit ''message'')) js_String
                       else Inr fallback))))))))"

text \<open>
  The precedence as the specification words it, with reads that cannot fail: the body of
  the response, the first element of its \<open>issues\<close> when that is an array, and the five
  candidates in order. The message is the body itself when it is a string, else the first
  truthy candidate converted with \<open>String\<close>, else the fallback.
\<close>

definition data_of :: "jsval \<Rightarrow> jsval" where
  "data_of err = own (own err (lit ''response'')) (lit ''data'')"

definition first_issue :: "jsval \<Rightarrow> jsval" where
  "first_issue d = (case own d (lit ''issues'') of Arr (x # xs) \<Rightarrow> x | _ \<Rightarrow> Prim PUndefined)"

definition candidates :: "jsval \<Rightarrow> jsval list" where
  "candidates err =
     (let d = data_of err
      in [own d (lit ''error''), own d (lit ''message''),
          own (first_issue d) (lit ''message''), own (first_issue d) (lit ''msg''),
          own err (lit ''message'')])"

definition fallback_or_default :: "jstr option \<Rightarrow> jstr" where
  "fallback_or_default a = (case a of None \<Rightarrow> lit ''Ocorreu um erro'' | Some f \<Rightarrow> f)"

definition message_by_precedence :: "jsval \<Rightarrow> jstr \<Rightarrow> js_error + jstr" where
  "message_by_precedence err fallback =
     (case data_of err of
        Prim (PStr s) \<Rightarrow> Inr s
      | _ \<Rightarrow> (case find truthy (candidates err) of
                 Some v \<Rightarrow> js_String v
               | None \<Rightarrow> Inr fallback))"

text \<open>The values \<open>String\<close> converts: no object with an own \<open>toString\<close> is reached.\<close>

fun stringable :: "jsval \<Rightarrow> bool" where
  "stringable (Prim p) = True"
| "stringable (Arr xs) = list_all stringable xs"
| "stringable (Obj kvs) = (lit ''toString'' \<notin> fst ` set kvs)"

definition chosen_stringable :: "jsval \<Rightarrow> bool" where
  "chosen_stringable err =
     (case find truthy (candidates err) of Some v \<Rightarrow> stringable v | None \<Rightarrow> True)"

section \<open>\<open>pickPrimaryImage\<close>\<close>

text \<open>
  \<^verbatim>\<open>
  export type ProductImage = { id: string; url: string; key?: string;
      isPrimary?: boolean | null; sort?: number | null; mime?: string | null;
      size?: number | null; };
  \<close>
  An optional or nullable field is \<open>None\<close> when it is missing or \<open>null\<close>. The sort values
  are the finite numbers a JSON body carries; they are taken as exact rationals, and the
  sign of a difference of two of them is the sign the subtraction of doubles gives.
\<close>

record ProductImage =
  id_img :: jstr
  url :: jstr
  key_img :: "jstr option"
  isPrimary :: "bool option"
  sort_img :: "rat option"
  mime :: "jstr option"
  size_img :: "rat option"

text \<open>
  Arrays are objects on the heap: a reference names one, \<open>[...images]\<close> allocates a new
  one, \<open>sort\<close> rearranges the array it is called on.
\<close>

type_synonym ref = nat

record heap =
  arrays :: "ref \<rightharpoonup> ProductImage list"
  next_ref :: ref

definition heap_ok :: "heap \<Rightarrow> bool" where
  "heap_ok h \<longleftrightarrow> (\<forall>r\<in>dom (arrays h). r < next_ref h)"

definition alloc :: "heap \<Rightarrow> ProductImage list \<Rightarrow> ref \<times> heap" where
  "alloc h xs =
     (next_ref h, h\<lparr>arrays := (arrays h)(next_ref h \<mapsto> xs), next_ref := Suc (next_ref h)\<rparr>)"

text \<open>
  \<open>Array.prototype.sort\<close> with a comparator: \<open>a\<close> goes before \<open>b\<close> when the comparator is
  negative, after it when positive, and elements that compare equal keep their order (the
  sort is stable since ECMAScript 2019). For a comparator that is a consistent ordering the
  result is the one stable sorted arrangement, which insertion from the right computes.
\<close>

fun insert_by :: "('a \<Rightarrow> 'a \<Rightarrow> rat) \<Rightarrow> 'a \<Rightarrow> 'a list \<Rightarrow> 'a list" where
  "insert_by cmp x [] = [x]"
| "insert_by cmp x (y # ys) = (if cmp x y \<le> 0 then x # y # ys else y # insert_by cmp x ys)"

definition js_sort :: "('a \<Rightarrow> 'a \<Rightarrow> rat) \<Rightarrow> 'a list \<Rightarrow> 'a list" where
  "js_sort cmp xs = foldr (insert_by cmp) xs []"

definition sort_in_place :: "(ProductImage \<Rightarrow> ProductImage \<Rightarrow> rat) \<Rightarrow> ref \<Rightarrow> heap \<Rightarrow> heap" where
  "sort_in_place cmp r h =
     (case arrays h r of
        None \<Rightarrow> h
      | Some ys \<Rightarrow> h\<lparr>arrays := (arrays h)(r \<mapsto> js_sort cmp ys)\<rparr>)"

text \<open>
  \<^verbatim>\<open>
  export function pickPrimaryImage(images?: ProductImage[] | null) {
      if (!images?.length) return null;
      const sorted = [...images].sort((a, b) => {
          const ap = a.isPrimary ? 1 : 0;
          const bp = b.isPrimary ? 1 : 0;
          if (bp !== ap) return bp - ap;
          return (a.sort ?? 0) - (b.sort ?? 0);
      });
      return sorted[0]?.url ?? null;
  }
  \<close>
\<close>

definition sort_or_zero :: "ProductImage \<Rightarrow> rat" where
  "sort_or_zero a = (case sort_img a of None \<Rightarrow> 0 | Some n \<Rightarrow> n)"

definition compare_images :: "ProductImage \<Rightarrow> ProductImage \<Rightarrow> rat" where
  "compare_images a b =
     (let ap = (if isPrimary a = Some True then 1 else 0);
          bp = (if isPrimary b = Some True then 1 else 0)
      in if bp \<noteq> ap then bp - ap else sort_or_zero a - sort_or_zero b)"

datatype images_arg = Images_undefined | Images_null | Images ref

text \<open>
  The result is \<open>None\<close> for \<open>null\<close>. A reference the heap does not hold cannot arise in
  JavaScript; it is treated as a value without \<open>length\<close>.
\<close>

definition pickPrimaryImage :: "heap \<Rightarrow> images_arg \<Rightarrow> jstr option \<times> heap" where
  "pickPrimaryImage h images =
     (case images of
        Images r \<Rightarrow>
          (case arrays h r of
             None \<Rightarrow> (None, h)
           | Some xs \<Rightarrow>
               if length xs = 0 then (None, h)
               else (let (copy, h1) = alloc h xs;
                         h2 = sort_in_place compare_images copy h1;
                         sorted = copy
                     in (case arrays h2 sorted of
                           Some (first # rest) \<Rightarrow> (Some (url first), h2)
                         | _ \<Rightarrow> (None, h2))))
      | _ \<Rightarrow> (None, h))"

text \<open>The list an argument denotes, if it denotes one.\<close>

fun images_of :: "heap \<Rightarrow> images_arg \<Rightarrow> ProductImage list option" where
  "images_of h (Images r) = arrays h r"
| "images_of h a = None"

section \<open>The HTTP client and the browser\<close>

text \<open>
  A request configuration as the interceptors of \<open>src/lib/api.ts\<close> read and write it: the
  url, the headers (possibly missing), and the mark \<open>_retry\<close> the response interceptor adds
  (\<open>type RetryableRequestConfig = InternalAxiosRequestConfig & { _retry?: boolean }\<close>).
\<close>

record config =
  url_cfg :: "jstr option"
  method_cfg :: jstr
  headers_cfg :: "(jstr \<rightharpoonup> jstr) option"
  data_cfg :: jsval
  retry :: "bool option"

record response =
  status :: nat
  data :: jsval

text \<open>
  An \<open>AxiosError\<close>: \<open>err.response\<close> is missing when no answer came (a network error), and
  \<open>err.config\<close> is the configuration of the request that failed.
\<close>

record AxiosError =
  response :: "response option"
  config :: "config option"

text \<open>
  What a promise of this module is rejected with: an \<open>AxiosError\<close>, an \<open>Error\<close> made with
  \<open>new Error(message)\<close>, or an error thrown by the language.
\<close>

datatype rejection = Axios AxiosError | ErrorObject jstr | Thrown js_error

text \<open>
  The browser: \<open>localStorage\<close> and \<open>window.location\<close>. Assigning \<open>location.href\<close> starts a
  navigation; \<open>href\<close> holds the address last assigned. Where the code runs without a
  browser (\<open>typeof window === "undefined"\<close>) there is no window.
\<close>

record location =
  pathname :: jstr
  search :: jstr
  href :: jstr

record window =
  localStorage :: "jstr \<rightharpoonup> jstr"
  location :: location

text \<open>
  The answer to a request: axios resolves with the response for a status from 200 to 299 and
  rejects otherwise, with the response when there is one. \<open>wire\<close> is the record of the
  requests sent, in order. The module variable \<open>refreshing\<close> holds the pending promise, here
  the number of the refresh it belongs to; \<open>promises\<close> counts the refreshes started and
  \<open>refresh_calls\<close> the calls of \<open>refreshAccessToken\<close>.
\<close>

datatype reply = Replied response | Failed "response option"

datatype wire_entry = Api_request config | Refresh_POST

record state =
  window :: "window option"
  refreshing :: "nat option"
  promises :: nat
  refresh_calls :: nat
  wire :: "wire_entry list"

text \<open>
  The network, for a run in which nothing else happens while a request is out: the answer
  to the request that is the \<open>n\<close>-th on the wire, and the answer to the \<open>n\<close>-th refresh.
\<close>

record net =
  answer :: "nat \<Rightarrow> config \<Rightarrow> reply"
  refresh_answer :: "nat \<Rightarrow> reply"

subsection \<open>\<open>authStore\<close> (\<open>src/lib/auth.ts\<close>)\<close>

definition ACCESS_TOKEN_KEY :: jstr where
  "ACCESS_TOKEN_KEY = lit ''accessToken''"

definition ME_KEY :: jstr where
  "ME_KEY = lit ''me''"

text \<open>
  \<^verbatim>\<open>
  getAccessToken(): string | null {
      if (typeof window === "undefined") return null;
      return localStorage.getItem(ACCESS_TOKEN_KEY);
  }
  \<close>
\<close>

definition getAccessToken :: "state \<Rightarrow> jstr option" where
  "getAccessToken st =
     (case window st of None \<Rightarrow> None | Some w \<Rightarrow> localStorage w ACCESS_TOKEN_KEY)"

text \<open>The text stored under \<open>ME_KEY\<close>, which \<open>getMe\<close> parses.\<close>

definition stored_me :: "state \<Rightarrow> jstr option" where
  "stored_me st = (case window st of None \<Rightarrow> None | Some w \<Rightarrow> localStorage w ME_KEY)"

text \<open>
  \<^verbatim>\<open>
  setAccessToken(token: string) {
      if (typeof window === "undefined") return;
      localStorage.setItem(ACCESS_TOKEN_KEY, token);
  }
  \<close>
  \<open>setItem\<close> converts the value it is given to a string.
\<close>

definition setAccessToken :: "jsval \<Rightarrow> state \<Rightarrow> js_error + state" where
  "setAccessToken token st =
     (case window st of
        None \<Rightarrow> Inr st
      | Some w \<Rightarrow>
          (case js_String token of
             Inl e \<Rightarrow> Inl e
           | Inr t \<Rightarrow>
               Inr (st\<lparr>window := Some (w\<lparr>localStorage := (localStorage w)(ACCESS_TOKEN_KEY \<mapsto> t)\<rparr>)\<rparr>)))"

text \<open>
  \<^verbatim>\<open>
  clearAll() {
      if (typeof window === "undefined") return;
      localStorage.removeItem(ACCESS_TOKEN_KEY);
      localStorage.removeItem(ME_KEY);
  }
  \<close>
\<close>

definition clearAll :: "state \<Rightarrow> state" where
  "clearAll st =
     (case window st of
        None \<Rightarrow> st
      | Some w \<Rightarrow>
          st\<lparr>window := Some (w\<lparr>localStorage :=
                 ((localStorage w)(ACCESS_TOKEN_KEY := None))(ME_KEY := None)\<rparr>)\<rparr>)"

subsection \<open>\<open>encodeURIComponent\<close>\<close>

text \<open>
  The characters \<open>A-Z a-z 0-9 - _ . ! ~ * ' ( )\<close> are kept. Any other code point is written
  as the bytes of its UTF-8 encoding, each byte as \<open>%\<close> and two upper-case hexadecimal
  digits; a surrogate pair is one code point, and a surrogate on its own is a URIError.
\<close>

definition unreserved :: "16 word \<Rightarrow> bool" where
  "unreserved c \<longleftrightarrow>
     (65 \<le> c \<and> c \<le> 90) \<or> (97 \<le> c \<and> c \<le> 122) \<or> (48 \<le> c \<and> c \<le> 57)
     \<or> c \<in> {45, 95, 46, 33, 126, 42, 39, 40, 41}"

definition hex_digit :: "nat \<Rightarrow> 16 word" where
  "hex_digit n = (if n < 10 then of_nat (48 + n) else of_nat (55 + n))"

definition percent :: "nat \<Rightarrow> jstr" where
  "percent b = [37, hex_digit (b div 16), hex_digit (b mod 16)]"

definition utf8 :: "nat \<Rightarrow> nat list" where
  "utf8 cp =
     (if cp < 128 then [cp]
      else if cp < 2048 then [192 + cp div 64, 128 + cp mod 64]
      else if cp < 65536 then [224 + cp div 4096, 128 + (cp div 64) mod 64, 128 + cp mod 64]
      else [240 + cp div 262144, 128 + (cp div 4096) mod 64, 128 + (cp div 64) mod 64,
            128 + cp mod 64])"

definition escape :: "nat \<Rightarrow> jstr" where
  "escape cp = concat (map percent (utf8 cp))"

definition high_surrogate :: "16 word \<Rightarrow> bool" where
  "high_surrogate c \<longleftrightarrow> 55296 \<le> c \<and> c \<le> 56319"

definition low_surrogate :: "16 word \<Rightarrow> bool" where
  "low_surrogate c \<longleftrightarrow> 56320 \<le> c \<and> c \<le> 57343"

fun encodeURIComponent :: "jstr \<Rightarrow> js_error + jstr" where
  "encodeURIComponent [] = Inr []"
| "encodeURIComponent (c # cs) =
     (if unreserved c then map_sum id ((#) c) (encodeURIComponent cs)
      else if low_surrogate c then Inl URIError
      else if high_surrogate c then
        (case cs of
           [] \<Rightarrow> Inl URIError
         | d # ds \<Rightarrow>
             if low_surrogate d
             then map_sum id ((@) (escape ((unat c - 55296) * 1024 + (unat d - 56320) + 65536)))
                    (encodeURIComponent ds)
             else Inl URIError)
      else map_sum id ((@) (escape (unat c))) (encodeURIComponent cs))"

subsection \<open>The interceptors (\<open>src/lib/api.ts\<close>)\<close>

text \<open>
  \<^verbatim>\<open>
  function extractAccessToken(data: unknown): string | null {
      if (!data || typeof data !== "object") return null;
      const payload = data as { accessToken?: string; token?: string;
                                data?: { accessToken?: string; token?: string } };
      return payload.accessToken ?? payload.token ?? payload.data?.accessToken
             ?? payload.data?.token ?? null;
  }
  \<close>
  \<open>typeof\<close> is \<open>"object"\<close> for an object and for an array; the payload read is such a value,
  so its property reads do not throw.
\<close>

fun is_object :: "jsval \<Rightarrow> bool" where
  "is_object (Prim p) = False"
| "is_object v = True"

definition nc :: "jsval \<Rightarrow> jsval \<Rightarrow> jsval" where
  "nc a b = (if is_nullish a then b else a)"

definition opt_own :: "jsval \<Rightarrow> jstr \<Rightarrow> jsval" where
  "opt_own v k = (if is_nullish v then Prim PUndefined else own v k)"

definition extractAccessToken :: "jsval \<Rightarrow> jsval" where
  "extractAccessToken d =
     (if \<not> truthy d \<or> \<not> is_object d then Prim PNull
      else nc (own d (lit ''accessToken''))
          (nc (own d (lit ''token''))
          (nc (opt_own (own d (lit ''data'')) (lit ''accessToken''))
          (nc (opt_own (own d (lit ''data'')) (lit ''token''))
              (Prim PNull)))))"

text \<open>The request \<open>authApi.post(endpoints.auth.refresh, {})\<close>; \<open>authApi\<close> has no interceptor.\<close>

definition refresh_endpoint :: jstr where
  "refresh_endpoint = lit ''/auth/refresh''"

definition refresh_config :: config where
  "refresh_config =
     \<lparr>url_cfg = Some refresh_endpoint, method_cfg = lit ''post'', headers_cfg = None,
      data_cfg = Obj [], retry = None\<rparr>"

text \<open>
  \<^verbatim>\<open>
  async function refreshAccessToken(): Promise<string> {
      if (!refreshing) {
          refreshing = (async () => {
              const res = await authApi.post(endpoints.auth.refresh, {});
              const token = extractAccessToken(res.data);
              if (!token) throw new Error("Refresh OK mas nao retornou accessToken");
              authStore.setAccessToken(token);
              return token;
          })().finally(() => { refreshing = null; });
      }
      return refreshing;
  }
  \<close>
  (The message has an a with tilde in \<open>nao\<close>, code unit 227.)
  The function has three parts in time. The call itself runs up to the \<open>await\<close> inside the
  inner function: if nothing is pending it sends the POST and stores the new promise. The
  body of the inner function goes on when the POST is answered. The \<open>finally\<close> callback
  clears \<open>refreshing\<close>, and only then are the callers that await the promise resumed.
\<close>

definition refreshAccessToken_call :: "state \<Rightarrow> nat \<times> state" where
  "refreshAccessToken_call st =
     (case refreshing st of
        None \<Rightarrow>
          (promises st,
           st\<lparr>refreshing := Some (promises st), promises := Suc (promises st),
              refresh_calls := Suc (refresh_calls st), wire := wire st @ [Refresh_POST]\<rparr>)
      | Some p \<Rightarrow> (p, st\<lparr>refresh_calls := Suc (refresh_calls st)\<rparr>))"

definition no_token_message :: jstr where
  "no_token_message = lit ''Refresh OK mas n'' @ [227] @ lit ''o retornou accessToken''"

definition refresh_body :: "reply \<Rightarrow> state \<Rightarrow> (rejection + jsval) \<times> state" where
  "refresh_body r st =
     (case r of
        Failed resp \<Rightarrow> (Inl (Axios \<lparr>response = resp, config = Some refresh_config\<rparr>), st)
      | Replied res \<Rightarrow>
          (let token = extractAccessToken (data res)
           in if \<not> truthy token then (Inl (ErrorObject no_token_message), st)
              else (case setAccessToken token st of
                      Inl e \<Rightarrow> (Inl (Thrown e), st)
                    | Inr st1 \<Rightarrow> (Inr token, st1))))"

definition refresh_finally :: "state \<Rightarrow> state" where
  "refresh_finally st = st\<lparr>refreshing := None\<rparr>"

text \<open>
  \<^verbatim>\<open>
  api.interceptors.request.use((config) => {
      const token = authStore.getAccessToken();
      if (token) {
          config.headers = config.headers ?? {};
          config.headers.Authorization = `Bearer ${token}`;
      }
      return config;
  });
  \<close>
\<close>

definition set_Authorization :: "jstr \<Rightarrow> config \<Rightarrow> config" where
  "set_Authorization t c =
     c\<lparr>headers_cfg :=
         Some ((case headers_cfg c of None \<Rightarrow> Map.empty | Some h \<Rightarrow> h)
                 (lit ''Authorization'' \<mapsto> lit ''Bearer '' @ t))\<rparr>"

definition request_interceptor :: "config \<Rightarrow> state \<Rightarrow> config" where
  "request_interceptor c st =
     (case getAccessToken st of
        None \<Rightarrow> c
      | Some token \<Rightarrow> if token \<noteq> [] then set_Authorization token c else c)"

text \<open>\<open>s.includes(t)\<close>: \<open>t\<close> occurs in \<open>s\<close> as a run of consecutive code units.\<close>

fun starts_with :: "jstr \<Rightarrow> jstr \<Rightarrow> bool" where
  "starts_with s [] = True"
| "starts_with [] (d # t) = False"
| "starts_with (c # s) (d # t) = (c = d \<and> starts_with s t)"

fun js_includes :: "jstr \<Rightarrow> jstr \<Rightarrow> bool" where
  "js_includes [] t = (t = [])"
| "js_includes (c # s) t = (starts_with (c # s) t \<or> js_includes s t)"

text \<open>
  The rejection handler of the response interceptor:
  \<^verbatim>\<open>
  async (err: AxiosError) => {
      const status = err.response?.status;
      const original = err.config as RetryableRequestConfig | undefined;
      if (status !== 401 || !original) return Promise.reject(err);
      const reqUrl = original.url ?? "";
      if (reqUrl.includes(endpoints.auth.refresh)) return Promise.reject(err);
      if (original._retry) return Promise.reject(err);
      original._retry = true;
      try {
          const newToken = await refreshAccessToken();
          original.headers = original.headers ?? {};
          original.headers.Authorization = `Bearer ${newToken}`;
          return api(original);
      } catch (e) {
          authStore.clearAll();
          if (typeof window !== "undefined") {
              const next = window.location.pathname + window.location.search;
              window.location.href = `/login?next=${encodeURIComponent(next || "/admin")}`;
          }
          return Promise.reject(e);
      }
  }
  \<close>
  The handler ends by rejecting, or by handing the configuration back to \<open>api\<close>
  (\<open>return api(original)\<close>; the promise is returned, not awaited, so the \<open>catch\<close> does not see
  its failure).
\<close>

datatype action = Reject rejection | Reissue config

text \<open>The test before the \<open>try\<close>: the request to repeat, if the handler is to refresh.\<close>

definition retry_candidate :: "AxiosError \<Rightarrow> config option" where
  "retry_candidate err =
     (let status = map_option status (response err);
          original = config err
      in case original of
           None \<Rightarrow> None
         | Some orig \<Rightarrow>
             if status \<noteq> Some 401 then None
             else (let reqUrl = (case url_cfg orig of None \<Rightarrow> [] | Some u \<Rightarrow> u)
                   in if js_includes reqUrl refresh_endpoint then None
                      else if retry orig = Some True then None
                      else Some (orig\<lparr>retry := Some True\<rparr>)))"

text \<open>
  The \<open>catch\<close> block. \<open>destination\<close> is \<open>next || "/admin"\<close>; an exception of
  \<open>encodeURIComponent\<close> leaves the block before the assignment and the \<open>return\<close>.
\<close>

definition destination :: "window \<Rightarrow> jstr" where
  "destination w =
     (let next = pathname (location w) @ search (location w)
      in if next \<noteq> [] then next else lit ''/admin'')"

definition on_refresh_failed :: "rejection \<Rightarrow> state \<Rightarrow> action \<times> state" where
  "on_refresh_failed e st =
     (let st1 = clearAll st
      in case window st1 of
           None \<Rightarrow> (Reject e, st1)
         | Some w \<Rightarrow>
             (case encodeURIComponent (destination w) of
                Inl ue \<Rightarrow> (Reject (Thrown ue), st1)
              | Inr enc \<Rightarrow>
                  (Reject e,
                   st1\<lparr>window := Some (w\<lparr>location :=
                          (location w)\<lparr>href := lit ''/login?next='' @ enc\<rparr>\<rparr>)\<rparr>)))"

text \<open>What a caller does when the promise it awaits is settled: the rest of the \<open>try\<close>.\<close>

definition resume :: "rejection + jsval \<Rightarrow> config \<Rightarrow> state \<Rightarrow> action \<times> state" where
  "resume outcome original st =
     (case outcome of
        Inl e \<Rightarrow> on_refresh_failed e st
      | Inr newToken \<Rightarrow>
          (case js_String newToken of
             Inl e \<Rightarrow> on_refresh_failed (Thrown e) st
           | Inr t \<Rightarrow> (Reissue (set_Authorization t original), st)))"

text \<open>
  \<open>await refreshAccessToken()\<close> when no other code runs in between: the call, the answer
  to the pending refresh, the body, the \<open>finally\<close> callback.
\<close>

definition await_refreshAccessToken :: "net \<Rightarrow> state \<Rightarrow> (rejection + jsval) \<times> state" where
  "await_refreshAccessToken n st =
     (let (p, st1) = refreshAccessToken_call st;
          (outcome, st2) = refresh_body (refresh_answer n p) st1
      in (outcome, refresh_finally st2))"

definition on_rejected :: "net \<Rightarrow> AxiosError \<Rightarrow> state \<Rightarrow> action \<times> state" where
  "on_rejected n err st =
     (case retry_candidate err of
        None \<Rightarrow> (Reject (Axios err), st)
      | Some original \<Rightarrow>
          (let (outcome, st1) = await_refreshAccessToken n st
           in resume outcome original st1))"

text \<open>
  A call \<open>api(config)\<close> when no other code runs in between: the request interceptor, the
  request on the wire, its answer; a failure goes to the rejection handler with the
  configuration that was sent as \<open>err.config\<close>, and a configuration the handler hands back
  is sent in turn. The handler hands back only configurations it has marked, and refuses
  marked ones, which bounds the recursion.
\<close>

definition unmarked :: "config \<Rightarrow> nat" where
  "unmarked c = (if retry c = Some True then 0 else 1)"

function api :: "net \<Rightarrow> config \<Rightarrow> state \<Rightarrow> (rejection + response) \<times> state" where
  "api n c st =
     (let c1 = request_interceptor c st;
          st1 = st\<lparr>wire := wire st @ [Api_request c1]\<rparr>
      in case answer n (length (wire st)) c1 of
           Replied res \<Rightarrow> (Inr res, st1)
         | Failed resp \<Rightarrow>
             (case on_rejected n \<lparr>response = resp, config = Some c1\<rparr> st1 of
                (Reject e, st2) \<Rightarrow> (Inl e, st2)
              | (Reissue c2, st2) \<Rightarrow> api n c2 st2))"
  by pat_completeness auto
termination
  apply (relation "measure (\<lambda>(n, c, st). unmarked c)")
   apply simp
  subgoal premises p for n c st c1 st1 resp a st2 c2
  proof -
    let ?c1 = "request_interceptor c st"
    let ?st1 = "st\<lparr>wire := wire st @ [Api_request ?c1]\<rparr>"
    have o: "on_rejected n \<lparr>response = resp, config = Some ?c1\<rparr> ?st1 = (Reissue c2, st2)"
      using p(4)[symmetric] unfolding p(1) p(2) p(5) .
    have r: "retry ?c1 = retry c"
      by (simp add: request_interceptor_def set_Authorization_def split: option.splits)
    from o obtain orig
      where cand: "retry_candidate \<lparr>response = resp, config = Some ?c1\<rparr> = Some orig"
      by (auto simp: on_rejected_def split: option.splits)
    then have u: "retry ?c1 \<noteq> Some True" and orig: "retry orig = Some True"
      by (auto simp: retry_candidate_def Let_def split: if_splits)
    have "retry c2 = Some True"
      using o cand orig
      by (auto simp: on_rejected_def resume_def on_refresh_failed_def Let_def
            set_Authorization_def split: prod.splits sum.splits option.splits)
    then show ?thesis
      using u r by (simp add: unmarked_def)
  qed
  done

declare api.simps [simp del]

fun is_api_request :: "wire_entry \<Rightarrow> bool" where
  "is_api_request (Api_request c) = True"
| "is_api_request Refresh_POST = False"

definition api_requests :: "wire_entry list \<Rightarrow> nat" where
  "api_requests ws = length (filter is_api_request ws)"

text \<open>The header \<open>k\<close> of a request, and the address a window has been sent to.\<close>

definition header :: "config \<Rightarrow> jstr \<Rightarrow> jstr option" where
  "header c k = (case headers_cfg c of None \<Rightarrow> None | Some h \<Rightarrow> h k)"



section \<open>The event loop\<close>

text \<open>
  Several requests can be out at once, and the code of \<open>src/lib/api.ts\<close> runs in pieces:
  a handler runs until it awaits, and goes on when the promise it awaits is settled. The
  pieces are the events below. A state of the loop holds the module and browser state and,
  of the promises of \<open>refreshAccessToken\<close>: the refreshes whose POST has no answer yet, those
  whose body has finished and whose \<open>finally\<close> callback has not run yet, those settled, and
  the callers suspended at \<open>await refreshAccessToken()\<close>, each with the promise it awaits and
  the request it is to repeat. \<open>handled\<close> records how each handler invocation ended.
  \<open>guard_posts\<close> counts the refresh requests of \<open>AuthGuard\<close> that have no answer yet.
\<close>

record loop =
  mem :: state
  in_flight :: "nat list"
  finished :: "nat \<rightharpoonup> (rejection + jsval)"
  settled :: "nat \<rightharpoonup> (rejection + jsval)"
  waiting :: "(nat \<times> config) list"
  handled :: "(config \<times> action) list"
  guard_posts :: nat

text \<open>
  \<open>AuthGuard\<close> (\<open>src/components/AuthGuard.tsx\<close>) refreshes on its own when no token is stored:
  \<^verbatim>\<open>
  const token = authStore.getAccessToken();
  if (token) { ... return; }
  try {
      const res = await api.post(endpoints.auth.refresh, {});
  \<close>
  It does not go through \<open>refreshAccessToken\<close>, and \<open>refreshing\<close> is private to
  \<open>src/lib/api.ts\<close>.
\<close>

datatype event =
    Error_arrives AxiosError
  | Refresh_answered nat reply
  | Finally_runs nat
  | Caller_resumes nat
  | AuthGuard_refreshes
  | AuthGuard_answered
  | Other_code "window option"

text \<open>
  \<open>Other_code\<close> stands for whatever else runs in the page between two pieces (the pages,
  the continuation of \<open>AuthGuard\<close>, the login and logout code): it can leave \<open>localStorage\<close>
  and the location in any state, and cannot reach \<open>refreshing\<close>. A configuration handed back
  by the handler is sent at once through the request interceptor.
\<close>

definition token_present :: "state \<Rightarrow> bool" where
  "token_present st = (case getAccessToken st of None \<Rightarrow> False | Some t \<Rightarrow> t \<noteq> [])"

fun fire :: "event \<Rightarrow> loop \<Rightarrow> loop option" where
  "fire (Error_arrives err) l =
     (case retry_candidate err of
        None \<Rightarrow> Some l
      | Some original \<Rightarrow>
          (let (p, m1) = refreshAccessToken_call (mem l)
           in Some (l\<lparr>mem := m1,
                      in_flight := (if refreshing (mem l) = None then in_flight l @ [p]
                                    else in_flight l),
                      waiting := waiting l @ [(p, original)]\<rparr>)))"
| "fire (Refresh_answered p r) l =
     (if p \<in> set (in_flight l)
      then (let (outcome, m1) = refresh_body r (mem l)
            in Some (l\<lparr>mem := m1, in_flight := remove1 p (in_flight l),
                       finished := (finished l)(p \<mapsto> outcome)\<rparr>))
      else None)"
| "fire (Finally_runs p) l =
     (case finished l p of
        None \<Rightarrow> None
      | Some outcome \<Rightarrow>
          Some (l\<lparr>mem := refresh_finally (mem l), finished := (finished l)(p := None),
                  settled := (settled l)(p \<mapsto> outcome)\<rparr>))"
| "fire (Caller_resumes i) l =
     (if i < length (waiting l)
      then (let (p, original) = waiting l ! i
            in case settled l p of
                 None \<Rightarrow> None
               | Some outcome \<Rightarrow>
                   (let (act, m1) = resume outcome original (mem l);
                        m2 = (case act of
                                Reject e \<Rightarrow> m1
                              | Reissue c \<Rightarrow>
                                  m1\<lparr>wire := wire m1 @ [Api_request (request_interceptor c m1)]\<rparr>)
                    in Some (l\<lparr>mem := m2,
                               waiting := take i (waiting l) @ drop (Suc i) (waiting l),
                               handled := handled l @ [(original, act)]\<rparr>)))
      else None)"
| "fire AuthGuard_refreshes l =
     (if token_present (mem l) then None
      else Some (l\<lparr>mem := (mem l)\<lparr>wire := wire (mem l)
                               @ [Api_request (request_interceptor refresh_config (mem l))]\<rparr>,
                    guard_posts := Suc (guard_posts l)\<rparr>))"
| "fire AuthGuard_answered l =
     (if guard_posts l = 0 then None else Some (l\<lparr>guard_posts := guard_posts l - 1\<rparr>))"
| "fire (Other_code w) l = Some (l\<lparr>mem := (mem l)\<lparr>window := w\<rparr>\<rparr>)"

fun run :: "event list \<Rightarrow> loop \<Rightarrow> loop option" where
  "run [] l = Some l"
| "run (e # es) l = (case fire e l of None \<Rightarrow> None | Some l1 \<Rightarrow> run es l1)"

text \<open>The page as it loads: nothing pending, nothing sent.\<close>

definition start :: "window option \<Rightarrow> loop" where
  "start w =
     \<lparr>mem = \<lparr>window = w, refreshing = None, promises = 0, refresh_calls = 0, wire = []\<rparr>,
      in_flight = [], finished = Map.empty, settled = Map.empty, waiting = [], handled = [],
      guard_posts = 0\<rparr>"

text \<open>The credential refreshes in flight: those of \<open>refreshAccessToken\<close> and those of \<open>AuthGuard\<close>.\<close>

definition refreshes_in_flight :: "loop \<Rightarrow> nat" where
  "refreshes_in_flight l = length (in_flight l) + guard_posts l"

text \<open>
  The invariant of the loop: while \<open>refreshing\<close> is empty no refresh of \<open>refreshAccessToken\<close>
  is in flight and no body is waiting for its \<open>finally\<close>; while it holds a promise, that
  promise is the only one in either state.
\<close>

definition flight_inv :: "loop \<Rightarrow> bool" where
  "flight_inv l =
     (case refreshing (mem l) of
        None \<Rightarrow> in_flight l = [] \<and> finished l = Map.empty
      | Some p \<Rightarrow> (in_flight l = [p] \<and> finished l = Map.empty)
                  \<or> (in_flight l = [] \<and> dom (finished l) = {p}))"

section \<open>Sample inputs\<close>

text \<open>
  A browser window on the page \<open>/admin/orders?p=2\<close> with a stale token and a user record
  stored, a request to \<open>/orders\<close>, its failure with status 401, a network whose refresh
  endpoint answers with the token \<open>"new"\<close>, and one whose refresh endpoint is unreachable.
\<close>

definition sample_window :: window where
  "sample_window =
     \<lparr>localStorage = [ACCESS_TOKEN_KEY \<mapsto> lit ''old'', ME_KEY \<mapsto> lit ''{}''],
      location = \<lparr>pathname = lit ''/admin/orders'', search = lit ''?p=2'',
                  href = lit ''https://shop.example/admin/orders?p=2''\<rparr>\<rparr>"

definition sample_request :: config where
  "sample_request =
     \<lparr>url_cfg = Some (lit ''/orders''), method_cfg = lit ''get'', headers_cfg = None,
      data_cfg = Prim PUndefined, retry = None\<rparr>"

definition sample_401 :: "config \<Rightarrow> AxiosError" where
  "sample_401 c = \<lparr>response = Some \<lparr>status = 401, data = Prim PNull\<rparr>, config = Some c\<rparr>"

definition net_refresh_ok :: net where
  "net_refresh_ok =
     \<lparr>answer = (\<lambda>i c. Failed (Some \<lparr>status = 401, data = Prim PNull\<rparr>)),
      refresh_answer = (\<lambda>p. Replied \<lparr>status = 200,
         data = Obj [(lit ''accessToken'', Prim (PStr (lit ''new'')))]\<rparr>)\<rparr>"


text \<open>The same window with nothing stored, as when the page is opened after the token is gone.\<close>

definition signed_out_window :: window where
  "signed_out_window = sample_window\<lparr>localStorage := Map.empty\<rparr>"

section \<open>The mutations of the admin pages\<close>

text \<open>
  Every mutation of a page is a call \<open>api.post(url, body, { headers: { "Idempotency-Key":
  key } })\<close> (or \<open>api.patch\<close>): the request below. The functions of this section are the
  \<open>mutationFn\<close> of each \<open>useMutation\<close> hook, named after the hook and its page, with the
  values the function reads as arguments.
\<close>

definition Idempotency_Key :: jstr where
  "Idempotency_Key = lit ''Idempotency-Key''"

definition request :: "string \<Rightarrow> jstr \<Rightarrow> jsval \<Rightarrow> jstr \<Rightarrow> config" where
  "request m u body k =
     \<lparr>url_cfg = Some u, method_cfg = lit m, headers_cfg = Some [Idempotency_Key \<mapsto> k],
      data_cfg = body, retry = None\<rparr>"

text \<open>An optional string in a body, and \<open>s || undefined\<close>.\<close>

definition opt_str :: "jstr option \<Rightarrow> jsval" where
  "opt_str s = (case s of None \<Rightarrow> Prim PUndefined | Some t \<Rightarrow> Prim (PStr t))"

definition or_undefined :: "jstr \<Rightarrow> jsval" where
  "or_undefined s = (if s \<noteq> [] then Prim (PStr s) else Prim PUndefined)"

subsection \<open>The inbox page: sellers and payouts\<close>

text \<open>
  \<^verbatim>\<open>
  const approveSeller = useMutation({
    mutationFn: async (id: string) =>
      api.post(endpoints.adminInbox.approveSeller(id), undefined, {
        headers: { "Idempotency-Key": IdemKey(id, "approve-seller") } }),
  const rejectSeller = useMutation({
    mutationFn: async ({ id, reason }: { id: string; reason?: string }) =>
      api.post(endpoints.adminInbox.rejectSeller(id), { reason },
        { headers: { "Idempotency-Key": IdemKey(id, "reject-seller") } }),
  const markPaid = useMutation({
    mutationFn: async ({ id, txid, receiptUrl }: {...}) =>
      api.post(endpoints.adminInbox.markPayoutPaid(id), { txid, receiptUrl },
        { headers: { "Idempotency-Key": IdemKey(id, "payout-paid") } }),
  const rejectPayout = useMutation({
    mutationFn: async ({ id, reason }: { id: string; reason?: string }) =>
      api.post(endpoints.adminInbox.rejectPayout(id), { reason },
        { headers: { "Idempotency-Key": IdemKey(id, "payout-reject") } }),
  \<close>
\<close>

definition approveSeller :: "jstr \<Rightarrow> config" where
  "approveSeller ident =
     request ''post'' (lit ''/admin/sellers/'' @ ident @ lit ''/approve'') (Prim PUndefined)
       (IdemKey ident (lit ''approve-seller''))"

definition rejectSeller :: "jstr \<Rightarrow> jstr option \<Rightarrow> config" where
  "rejectSeller ident reason =
     request ''post'' (lit ''/admin/sellers/'' @ ident @ lit ''/reject'')
       (Obj [(lit ''reason'', opt_str reason)])
       (IdemKey ident (lit ''reject-seller''))"

definition markPaid :: "jstr \<Rightarrow> jstr option \<Rightarrow> jstr option \<Rightarrow> config" where
  "markPaid ident txid receiptUrl =
     request ''post'' (lit ''/admin/payouts/'' @ ident @ lit ''/paid'')
       (Obj [(lit ''txid'', opt_str txid), (lit ''receiptUrl'', opt_str receiptUrl)])
       (IdemKey ident (lit ''payout-paid''))"

definition rejectPayout :: "jstr \<Rightarrow> jstr option \<Rightarrow> config" where
  "rejectPayout ident reason =
     request ''post'' (lit ''/admin/payouts/'' @ ident @ lit ''/reject'')
       (Obj [(lit ''reason'', opt_str reason)])
       (IdemKey ident (lit ''payout-reject''))"

subsection \<open>The order pages: decision and refund\<close>

text \<open>
  On the page of one order:
  \<^verbatim>\<open>
  const decideM = useMutation({
    mutationFn: async (action: "approve" | "reject") => {
      await api.patch(endpoints.adminOrders.decide(id),
        { action, note: note?.trim() || undefined },
        { headers: { "Idempotency-Key": idempotencyKey(id, action) } }); },
  const refundM = useMutation({
    mutationFn: async () => {
      await api.post(endpoints.adminOrders.refund(id),
        { amount: refundAmount || undefined, reason: refundReason || undefined },
        { headers: { "Idempotency-Key": idempotencyKey(id, "refund") } }); },
  \<close>
  and on the list of pending orders:
  \<^verbatim>\<open>
  const decideM = useMutation({
    mutationFn: async (vars: { orderId: string; action: "approve" | "reject" }) => {
      const { orderId, action } = vars;
      await api.patch(endpoints.adminOrders.decide(orderId), { action },
        { headers: { "Idempotency-Key": idempotencyKey(orderId, action) } }); },
  \<close>
\<close>

datatype decision = Approve | Reject_order

fun action_text :: "decision \<Rightarrow> jstr" where
  "action_text Approve = lit ''approve''"
| "action_text Reject_order = lit ''reject''"

definition decideM_order :: "jstr \<Rightarrow> jstr \<Rightarrow> decision \<Rightarrow> config" where
  "decideM_order ident note action =
     request ''patch'' (lit ''/admin/orders/'' @ ident)
       (Obj [(lit ''action'', Prim (PStr (action_text action))),
             (lit ''note'', or_undefined (trim note))])
       (idempotencyKey ident (action_text action))"

definition refundM :: "jstr \<Rightarrow> jstr \<Rightarrow> jstr \<Rightarrow> config" where
  "refundM ident refundAmount refundReason =
     request ''post'' (lit ''/admin/orders/'' @ ident @ lit ''/refund'')
       (Obj [(lit ''amount'', or_undefined refundAmount),
             (lit ''reason'', or_undefined refundReason)])
       (idempotencyKey ident (lit ''refund''))"

definition decideM_orders :: "jstr \<Rightarrow> decision \<Rightarrow> config" where
  "decideM_orders orderId action =
     request ''patch'' (lit ''/admin/orders/'' @ orderId)
       (Obj [(lit ''action'', Prim (PStr (action_text action)))])
       (idempotencyKey orderId (action_text action))"

subsection \<open>Functions of the platform\<close>

text \<open>
  Three functions of the platform are not defined here: \<open>JSON.stringify\<close>, the SHA-256
  digest of \<open>crypto.subtle\<close> (from bytes to bytes) and \<open>String.prototype.toLowerCase\<close> (the
  case mapping of Unicode). They are parameters, and every statement holds whatever
  functions they are.
\<close>

record platform =
  JSON_stringify :: "jsval \<Rightarrow> jstr"
  sha256 :: "nat list \<Rightarrow> nat list"
  toLowerCase :: "jstr \<Rightarrow> jstr"

text \<open>
  \<open>new TextEncoder().encode(s)\<close>: the UTF-8 bytes of the string, a surrogate on its own
  becoming U+FFFD.
\<close>

fun text_encode :: "jstr \<Rightarrow> nat list" where
  "text_encode [] = []"
| "text_encode (c # cs) =
     (if high_surrogate c then
        (case cs of
           [] \<Rightarrow> [239, 191, 189]
         | d # ds \<Rightarrow>
             if low_surrogate d
             then utf8 ((unat c - 55296) * 1024 + (unat d - 56320) + 65536) @ text_encode ds
             else [239, 191, 189] @ text_encode cs)
      else if low_surrogate c then [239, 191, 189] @ text_encode cs
      else utf8 (unat c) @ text_encode cs)"

text \<open>
  \<open>btoa(String.fromCharCode(...bytes))\<close>: base 64 with the alphabet \<open>A-Z a-z 0-9 + /\<close> and
  \<open>=\<close> as padding; then \<open>.replace(/\+/g, "-").replace(/\//g, "_").replace(/=+$/, "")\<close>.
\<close>

definition b64_digit :: "nat \<Rightarrow> 16 word" where
  "b64_digit n =
     (if n < 26 then of_nat (65 + n)
      else if n < 52 then of_nat (71 + n)
      else if n < 62 then of_nat (n - 4)
      else if n = 62 then 43 else 47)"

fun btoa :: "nat list \<Rightarrow> jstr" where
  "btoa [] = []"
| "btoa [a] = [b64_digit (a div 4), b64_digit ((a mod 4) * 16), 61, 61]"
| "btoa [a, b] =
     [b64_digit (a div 4), b64_digit ((a mod 4) * 16 + b div 16), b64_digit ((b mod 16) * 4), 61]"
| "btoa (a # b # c # rest) =
     [b64_digit (a div 4), b64_digit ((a mod 4) * 16 + b div 16),
      b64_digit ((b mod 16) * 4 + c div 64), b64_digit (c mod 64)] @ btoa rest"

definition url_safe :: "jstr \<Rightarrow> jstr" where
  "url_safe s =
     rev (dropWhile (\<lambda>c. c = 61)
       (rev (map (\<lambda>c. if c = 47 then 95 else c) (map (\<lambda>c. if c = 43 then 45 else c) s))))"

subsection \<open>Keys built from a payload\<close>

text \<open>
  The pages have a \<open>stableKey\<close> of their own, which joins without trimming:
  \<^verbatim>\<open>
  function stableKey(prefix: string, ...parts: (string | number | boolean | null | undefined)[]) {
    return `${prefix}:${parts.map((p) => String(p ?? "")).join(":")}`;
  }
  \<close>
\<close>

definition stableKey_page :: "jstr \<Rightarrow> prim list \<Rightarrow> jstr" where
  "stableKey_page prefix parts =
     prefix @ lit '':'' @ js_join (lit '':'') (map (\<lambda>p. String_prim (nullish p (PStr []))) parts)"

text \<open>
  \<^verbatim>\<open>
  function stableIdem(prefix: string, parts: Record<string, unknown>) {
    const keys = Object.keys(parts).sort();
    const flat = keys.map((k) => `${k}=${String(parts[k])}`).join("&");
    return `${prefix}:${flat}`;
  }
  function stableIdemForPatch(id: string, payload: Record<string, unknown>) {
    const keys = Object.keys(payload).sort();
    const flat = keys.map((k) => `${k}=${String(payload[k])}`).join("&");
    return `admin-coupon-patch:${id}:${flat}`;
  }
  \<close>
  \<open>sort()\<close> without a comparator orders strings by their code units.
\<close>

fun lex_le :: "jstr \<Rightarrow> jstr \<Rightarrow> bool" where
  "lex_le [] t = True"
| "lex_le (c # s) [] = False"
| "lex_le (c # s) (d # t) = (c < d \<or> (c = d \<and> lex_le s t))"

definition compare_strings :: "jstr \<Rightarrow> jstr \<Rightarrow> rat" where
  "compare_strings a b = (if a = b then 0 else if lex_le a b then - 1 else 1)"

definition flat_pairs :: "(jstr \<times> jsval) list \<Rightarrow> js_error + jstr" where
  "flat_pairs parts =
     (let keys = js_sort compare_strings (map fst parts)
      in case all_ok (map (\<lambda>k. case js_String (own (Obj parts) k) of
                                   Inl e \<Rightarrow> Inl e
                                 | Inr s \<Rightarrow> Inr (k @ lit ''='' @ s)) keys) of
           Inl e \<Rightarrow> Inl e
         | Inr fs \<Rightarrow> Inr (js_join (lit ''&'') fs))"

definition stableIdem :: "jstr \<Rightarrow> (jstr \<times> jsval) list \<Rightarrow> js_error + jstr" where
  "stableIdem prefix parts =
     (case flat_pairs parts of
        Inl e \<Rightarrow> Inl e
      | Inr flattened \<Rightarrow> Inr (prefix @ lit '':'' @ flattened))"

definition stableIdemForPatch :: "jstr \<Rightarrow> (jstr \<times> jsval) list \<Rightarrow> js_error + jstr" where
  "stableIdemForPatch ident payload =
     (case flat_pairs payload of
        Inl e \<Rightarrow> Inl e
      | Inr flattened \<Rightarrow> Inr (lit ''admin-coupon-patch:'' @ ident @ lit '':'' @ flattened))"

text \<open>
  \<^verbatim>\<open>
  async function idemKey(prefix: string, payload: unknown) {
    const json = JSON.stringify(payload);
    const bytes = new TextEncoder().encode(json);
    const digest = await crypto.subtle.digest("SHA-256", bytes);
    const b64 = btoa(String.fromCharCode(...new Uint8Array(digest)))
      .replace(/\+/g, "-").replace(/\//g, "_").replace(/=+$/, "");
    return `${prefix}:${b64}`;
  }
  \<close>
\<close>

definition idemKey :: "platform \<Rightarrow> jstr \<Rightarrow> jsval \<Rightarrow> jstr" where
  "idemKey P prefix payload =
     (let json = JSON_stringify P payload;
          bytes = text_encode json;
          digest = sha256 P bytes;
          b64 = url_safe (btoa digest)
      in prefix @ lit '':'' @ b64)"

text \<open>
  \<^verbatim>\<open>
  function stableIdemForCreateCoupon(args: { code: string; appliesTo: PromoAppliesTo;
      type: DiscountType; value: number; startsAtISO: string; endsAtISO?: string | null; }) {
    const parts = ["admin-coupon-create", args.code, args.appliesTo, args.type,
      String(args.value), args.startsAtISO, args.endsAtISO ?? "no-end"];
    return parts.join(":");
  }
  \<close>
\<close>

record coupon_args =
  code :: jstr
  appliesTo :: jstr
  discount_type :: jstr
  coupon_value :: number
  startsAtISO :: jstr
  endsAtISO :: "jstr option"

definition stableIdemForCreateCoupon :: "coupon_args \<Rightarrow> jstr" where
  "stableIdemForCreateCoupon args =
     js_join (lit '':'')
       [lit ''admin-coupon-create'', code args, appliesTo args, discount_type args,
        String_prim (PNum (coupon_value args)), startsAtISO args,
        (case endsAtISO args of None \<Rightarrow> lit ''no-end'' | Some e \<Rightarrow> e)]"

subsection \<open>Creations\<close>

text \<open>
  A category, on the categories page (both revisions of the page):
  \<^verbatim>\<open>
  const createM = useMutation({
    mutationFn: async () => {
      const name = newName.trim();
      if (!name) throw new Error("Nome obrigatorio");
      await api.post(endpoints.categories.create, { name },
        { headers: { "Idempotency-Key": stableKey("cat-create", name.toLowerCase()) } }); },
  \<close>
  A product, on the page of a new product; the key of one revision reads only \<open>sku\<close> and
  \<open>name\<close>, the key of the other also the categories and the audience:
  \<^verbatim>\<open>
  await api.post(endpoints.products.create, payload, { headers: { "Idempotency-Key":
      stableKey("product-create", payload.sku || payload.name || "no-key") } });

  await api.post(endpoints.products.create, payload, { headers: { "Idempotency-Key":
      stableKey("product-create", payload.sku || payload.name || "no-key",
        payload.categoryId ?? "", payload.categoryIds.join(","), payload.audience) } });
  \<close>
  A coupon and a promotion of a product:
  \<^verbatim>\<open>
  const idem = stableIdemForCreateCoupon({ code, appliesTo: newAppliesTo, type: newType,
      value: valueNum, startsAtISO: startsISO, endsAtISO: endsISO });
  await api.post(endpoints.adminCoupons.create, payload, { headers: { "Idempotency-Key": idem } });

  const idem = stableIdem(`admin-prod-promo-create:${id}`, payload);
  await api.post(promoEndpoints.create(id), payload, { headers: { "Idempotency-Key": idem } });
  \<close>
  A payload that the function builds from the form is an argument here.
\<close>

datatype page_error = Page_error jstr | Page_throw js_error

definition createM_category :: "platform \<Rightarrow> jstr \<Rightarrow> page_error + config" where
  "createM_category P newName =
     (let name = trim newName
      in if name = [] then Inl (Page_error (lit ''Nome obrigat'' @ [243] @ lit ''rio''))
         else Inr (request ''post'' (lit ''/categories'') (Obj [(lit ''name'', Prim (PStr name))])
                     (stableKey_page (lit ''cat-create'') [PStr (toLowerCase P name)])))"

record product_payload =
  sku :: jstr
  product_name :: jstr
  categoryId :: "jstr option"
  categoryIds :: "jstr list"
  audience :: jstr
  other_fields :: "(jstr \<times> jsval) list"

definition product_body :: "product_payload \<Rightarrow> jsval" where
  "product_body p =
     Obj ([(lit ''sku'', Prim (PStr (sku p))), (lit ''name'', Prim (PStr (product_name p))),
           (lit ''categoryId'', (case categoryId p of None \<Rightarrow> Prim PNull | Some c \<Rightarrow> Prim (PStr c))),
           (lit ''categoryIds'', Arr (map (\<lambda>c. Prim (PStr c)) (categoryIds p))),
           (lit ''audience'', Prim (PStr (audience p)))] @ other_fields p)"

definition sku_or_name :: "product_payload \<Rightarrow> jstr" where
  "sku_or_name p =
     (if sku p \<noteq> [] then sku p else if product_name p \<noteq> [] then product_name p
      else lit ''no-key'')"

definition createM_product_short :: "product_payload \<Rightarrow> config" where
  "createM_product_short p =
     request ''post'' (lit ''/products'') (product_body p)
       (stableKey_page (lit ''product-create'') [PStr (sku_or_name p)])"

definition createM_product :: "product_payload \<Rightarrow> config" where
  "createM_product p =
     request ''post'' (lit ''/products'') (product_body p)
       (stableKey_page (lit ''product-create'')
          [PStr (sku_or_name p),
           (case categoryId p of None \<Rightarrow> PStr [] | Some c \<Rightarrow> PStr c),
           PStr (js_join (lit '','') (categoryIds p)),
           PStr (audience p)])"

definition createM_coupon :: "coupon_args \<Rightarrow> jsval \<Rightarrow> config" where
  "createM_coupon args payload =
     request ''post'' (lit ''/admin/coupons'') payload (stableIdemForCreateCoupon args)"

definition createPromoM :: "jstr \<Rightarrow> (jstr \<times> jsval) list \<Rightarrow> page_error + config" where
  "createPromoM ident payload =
     (case stableIdem (lit ''admin-prod-promo-create:'' @ ident) payload of
        Inl e \<Rightarrow> Inl (Page_throw e)
      | Inr idem \<Rightarrow>
          Inr (request ''post'' (lit ''/admin/products/'' @ ident @ lit ''/promotions'')
                 (Obj payload) idem))"

subsection \<open>Updates that carry a payload\<close>

text \<open>
  A product (\<open>saveM\<close> of the product page), a coupon (\<open>saveM\<close> of the coupon page) and a
  promotion (\<open>patchPromoM\<close>):
  \<^verbatim>\<open>
  const idem = await idemKey(`product-update:${id}`, payload);
  await api.patch(endpoints.products.update(id), payload, { headers: { "Idempotency-Key": idem } });

  const idem = stableIdemForPatch(id, payload);
  await api.patch(endpoints.adminCoupons.patch(id), payload, { headers: { "Idempotency-Key": idem } });

  const idem = stableIdem(`admin-prod-promo-patch:${id}:${promoId}`, payload);
  await api.patch(promoEndpoints.patch(id, promoId), payload, { headers: { "Idempotency-Key": idem } });
  \<close>
\<close>

definition saveM_product :: "platform \<Rightarrow> jstr \<Rightarrow> jsval \<Rightarrow> config" where
  "saveM_product P ident payload =
     request ''patch'' (lit ''/products/'' @ ident) payload
       (idemKey P (lit ''product-update:'' @ ident) payload)"

definition saveM_coupon :: "jstr \<Rightarrow> (jstr \<times> jsval) list \<Rightarrow> page_error + config" where
  "saveM_coupon ident payload =
     (case stableIdemForPatch ident payload of
        Inl e \<Rightarrow> Inl (Page_throw e)
      | Inr idem \<Rightarrow> Inr (request ''patch'' (lit ''/admin/coupons/'' @ ident) (Obj payload) idem))"

definition patchPromoM :: "jstr \<Rightarrow> jstr \<Rightarrow> (jstr \<times> jsval) list \<Rightarrow> page_error + config" where
  "patchPromoM ident promoId payload =
     (case stableIdem (lit ''admin-prod-promo-patch:'' @ ident @ lit '':'' @ promoId) payload of
        Inl e \<Rightarrow> Inl (Page_throw e)
      | Inr idem \<Rightarrow>
          Inr (request ''patch''
                 (lit ''/admin/products/'' @ ident @ lit ''/promotions/'' @ promoId)
                 (Obj payload) idem))"

subsection \<open>The update of a category\<close>

text \<open>
  The categories page, in the revision that updates the list optimistically, gives every
  click an operation id of its own:
  \<^verbatim>\<open>
  const patchM = useMutation({
    mutationFn: async (vars: { id: string; patch: { name?: string; active?: boolean };
                               opId: string; }) => {
      const res = await api.patch(endpoints.categories.update(vars.id), vars.patch, {
        headers: { "Idempotency-Key": stableKey("cat-patch", vars.id, vars.opId) } });
  ...
  onRename={(name) => patchM.mutate({ id: c.id, patch: { name }, opId: crypto.randomUUID() })}
  onToggle={() =>
    patchM.mutate({ id: c.id, patch: { active: !c.active }, opId: crypto.randomUUID() })}
  \<close>
  The other revision of the page takes the text of the patch:
  \<^verbatim>\<open>
  headers: { "Idempotency-Key": stableKey("cat-patch", vars.id, JSON.stringify(vars.patch)) }
  \<close>
\<close>

definition randomUUID :: "jstr run" where
  "randomUUID w = (entropy w (drawn w), w\<lparr>drawn := Suc (drawn w)\<rparr>)"

definition patchM_category :: "jstr \<Rightarrow> jsval \<Rightarrow> jstr \<Rightarrow> config" where
  "patchM_category ident patch opId =
     request ''patch'' (lit ''/categories/'' @ ident) patch
       (stableKey_page (lit ''cat-patch'') [PStr ident, PStr opId])"

definition onRename :: "jstr \<Rightarrow> jstr \<Rightarrow> config run" where
  "onRename ident name w =
     (let (opId, w1) = randomUUID w
      in (patchM_category ident (Obj [(lit ''name'', Prim (PStr name))]) opId, w1))"

definition onToggle :: "jstr \<Rightarrow> bool \<Rightarrow> config run" where
  "onToggle ident active w =
     (let (opId, w1) = randomUUID w
      in (patchM_category ident (Obj [(lit ''active'', Prim (PBool (\<not> active)))]) opId, w1))"

definition patchM_category_by_text :: "platform \<Rightarrow> jstr \<Rightarrow> jsval \<Rightarrow> config" where
  "patchM_category_by_text P ident patch =
     request ''patch'' (lit ''/categories/'' @ ident) patch
       (stableKey_page (lit ''cat-patch'') [PStr ident, PStr (JSON_stringify P patch)])"

text \<open>Two worlds that differ in the random values ahead.\<close>

definition world_a :: world where
  "world_a = \<lparr>clock = 0, entropy = (\<lambda>n. lit ''3b241101-e2bb-4255-8caf-4136c566a962''), drawn = 0\<rparr>"

definition world_b :: world where
  "world_b = \<lparr>clock = 0, entropy = (\<lambda>n. lit ''9f0c3d5e-7a41-4c1b-b2d8-0e6f5a1c7d33''), drawn = 0\<rparr>"

text \<open>
  A platform for the examples: lower case on the letters \<open>A\<close> to \<open>Z\<close>, a fixed text for
  \<open>JSON.stringify\<close> and a fixed digest. A payload with two fields.
\<close>

definition sample_platform :: platform where
  "sample_platform =
     \<lparr>JSON_stringify = (\<lambda>v. lit ''{}''),
      sha256 = (\<lambda>bytes. [251, 255, 191]),
      toLowerCase = map (\<lambda>c. if 65 \<le> c \<and> c \<le> 90 then c + 32 else c)\<rparr>"

definition sample_payload :: "(jstr \<times> jsval) list" where
  "sample_payload =
     [(lit ''value'', Prim (PNum (Number True (lit ''10'')))), (lit ''active'', Prim (PBool True))]"

section \<open>Properties of \<open>stableKey\<close>\<close>

lemma ws_words_dropWhile: "ws_words (dropWhile is_ws s) = ws_words s"
  by (induction s) auto

lemma ws_words_append_ws: "\<forall>c\<in>set t. is_ws c \<Longrightarrow> ws_words (s @ t) = ws_words s"
proof (induction s rule: ws_words.induct)
  case 1
  then show ?case by (induction t) auto
next
  case (2 c cs)
  let ?N = "\<lambda>x. \<not> is_ws x"
  show ?case
  proof (cases "is_ws c")
    case True
    with 2 show ?thesis by simp
  next
    case False
    have tw: "takeWhile ?N t = []" using 2(3) by (cases t) auto
    have dw: "dropWhile ?N t = t" using 2(3) by (cases t) auto
    show ?thesis
    proof (cases "\<forall>x\<in>set cs. ?N x")
      case True
      then have a: "takeWhile ?N (cs @ t) = cs"
        using tw by (simp add: takeWhile_append2)
      from True have b: "dropWhile ?N (cs @ t) = t"
        using dw by (simp add: dropWhile_append2)
      from True have c: "takeWhile ?N cs = cs" by simp
      from True have d: "dropWhile ?N cs = []" by simp
      have e: "ws_words t = []" using 2(3) by (induction t) auto
      show ?thesis using False by (simp add: a b c d e)
    next
      case inner: False
      then have "takeWhile ?N (cs @ t) = takeWhile ?N cs"
        "dropWhile ?N (cs @ t) = dropWhile ?N cs @ t"
        by (auto simp: takeWhile_append1 dropWhile_append1)
      then show ?thesis using False 2(2)[OF False 2(3)] by simp
    qed
  qed
qed

lemma ws_words_trim: "ws_words (trim s) = ws_words s"
proof -
  let ?u = "dropWhile is_ws s"
  have "?u = rev (dropWhile is_ws (rev ?u)) @ rev (takeWhile is_ws (rev ?u))"
    by (metis rev_append rev_rev_ident takeWhile_dropWhile_id)
  moreover have "\<forall>c\<in>set (rev (takeWhile is_ws (rev ?u))). is_ws c"
    by (auto dest: set_takeWhileD)
  ultimately have "ws_words ?u = ws_words (rev (dropWhile is_ws (rev ?u)))"
    using ws_words_append_ws by metis
  then show ?thesis by (simp add: trim_def ws_words_dropWhile)
qed

lemma js_join_Cons: "js_join sep (x # xs) = (if xs = [] then x else x @ sep @ js_join sep xs)"
  by (cases xs) auto

lemma ws_words_nonempty: "\<exists>c\<in>set s. \<not> is_ws c \<Longrightarrow> ws_words s \<noteq> []"
  by (induction s) auto

lemma last_dropWhile_eq: "dropWhile P xs \<noteq> [] \<Longrightarrow> last (dropWhile P xs) = last xs"
  by (induction xs) (auto split: if_splits)

lemma replace_ws_words_aux:
  "s = [] \<or> \<not> is_ws (last s) \<Longrightarrow>
   replace_ws s = (if s \<noteq> [] \<and> is_ws (hd s) then 95 # js_join [95] (ws_words s)
                   else js_join [95] (ws_words s))"
proof (induction s rule: replace_ws.induct)
  case 1
  then show ?case by simp
next
  case (2 c cs)
  from 2(3) have lastc: "\<not> is_ws (last (c # cs))" by simp
  show ?case
  proof (cases "is_ws c")
    case True
    let ?d = "dropWhile is_ws cs"
    from True lastc have cs_ne: "cs \<noteq> []" by auto
    with lastc have lcs: "\<not> is_ws (last cs)" by simp
    have d_ne: "?d \<noteq> []"
    proof
      assume "?d = []"
      then have "\<forall>x\<in>set cs. is_ws x" by (simp add: dropWhile_eq_Nil_conv)
      with cs_ne lcs show False using last_in_set by blast
    qed
    then have "\<not> is_ws (last ?d)" using lcs by (simp add: last_dropWhile_eq)
    moreover have "\<not> is_ws (hd ?d)" using d_ne hd_dropWhile by blast
    ultimately have "replace_ws ?d = js_join [95] (ws_words ?d)"
      using 2(1)[OF True] by simp
    then show ?thesis using True by (simp add: ws_words_dropWhile)
  next
    case False
    let ?N = "\<lambda>x. \<not> is_ws x"
    show ?thesis
    proof (cases cs)
      case Nil
      then show ?thesis using False by simp
    next
      case (Cons d ds)
      with lastc have lcs: "\<not> is_ws (last cs)" by simp
      then have ih: "replace_ws cs = (if is_ws (hd cs) then 95 # js_join [95] (ws_words cs)
                   else js_join [95] (ws_words cs))"
        using 2(2)[OF False] Cons by simp
      have ne: "ws_words cs \<noteq> []"
        using lcs Cons ws_words_nonempty[of cs] last_in_set[of cs] by blast
      show ?thesis
      proof (cases "is_ws d")
        case True
        then have "takeWhile ?N cs = []" "dropWhile ?N cs = cs" using Cons by simp_all
        then show ?thesis using False True ih ne Cons by (simp add: js_join_Cons)
      next
        case dF: False
        have "ws_words cs = (d # takeWhile ?N ds) # ws_words (dropWhile ?N ds)"
          using dF Cons by simp
        moreover have "takeWhile ?N cs = d # takeWhile ?N ds" "dropWhile ?N cs = dropWhile ?N ds"
          using dF Cons by simp_all
        ultimately show ?thesis using False dF ih Cons by (simp add: js_join_Cons)
      qed
    qed
  qed
qed

lemma trim_clean: "trim s = [] \<or> (\<not> is_ws (last (trim s)) \<and> \<not> is_ws (hd (trim s)))"
proof (cases "trim s = []")
  case True
  then show ?thesis by simp
next
  case False
  let ?u = "dropWhile is_ws s"
  let ?v = "dropWhile is_ws (rev ?u)"
  from False have v_ne: "?v \<noteq> []" by (simp add: trim_def)
  then have "\<not> is_ws (hd ?v)" using hd_dropWhile by blast
  then have l: "\<not> is_ws (last (trim s))" using v_ne by (simp add: trim_def last_rev)
  have u_ne: "?u \<noteq> []"
  proof
    assume "?u = []"
    then have "?v = []" by (simp only: rev.simps dropWhile.simps)
    with v_ne show False by simp
  qed
  then have hu: "\<not> is_ws (hd ?u)" using hd_dropWhile by blast
  have "hd (trim s) = last ?v" using v_ne by (simp add: trim_def hd_rev)
  also have "\<dots> = last (rev ?u)" using v_ne by (rule last_dropWhile_eq)
  also have "\<dots> = hd ?u" using u_ne by (simp add: last_rev)
  finally show ?thesis using l hu by simp
qed

lemma replace_ws_trim: "replace_ws (trim s) = js_join [95] (ws_words s)"
proof -
  have "replace_ws (trim s) = js_join [95] (ws_words (trim s))"
    using replace_ws_words_aux[of "trim s"] trim_clean[of s] by auto
  then show ?thesis by (simp add: ws_words_trim)
qed

lemma replace_ws_no_ws: "filter is_ws (replace_ws s) = []"
  by (induction s rule: replace_ws.induct) (auto simp: is_ws_def)

lemma filter_take_Nil: "filter P xs = [] \<Longrightarrow> filter P (take n xs) = []"
  by (auto simp: filter_empty_conv dest: in_set_takeD)

text \<open>
  C10, as the code has it. For every argument list the key holds no whitespace code unit and
  at most 160 code units. Whitespace at the two ends of the joined input is removed by
  \<open>trim\<close>; every other maximal run of whitespace becomes one underscore: the key is the first
  160 code units of the words of the joined input, put together with single underscores.
\<close>

theorem stableKey_shape:
  "filter is_ws (stableKey parts) = []
   \<and> length (stableKey parts) \<le> 160
   \<and> stableKey parts = take 160 (js_join (lit ''_'') (ws_words (joined parts)))"
proof -
  have u: "lit ''_'' = [95]" by (simp add: lit_def)
  have "filter is_ws (stableKey parts) = []"
    unfolding stableKey_def Let_def by (rule filter_take_Nil) (rule replace_ws_no_ws)
  moreover have "length (stableKey parts) \<le> 160"
    by (simp add: stableKey_def)
  moreover have "stableKey parts = take 160 (js_join (lit ''_'') (ws_words (joined parts)))"
    by (simp add: stableKey_def replace_ws_trim u)
  ultimately show ?thesis by blast
qed

text \<open>
  The key of \<open>stableKey(" order  7 ", ["a b", null], 3)\<close>, through the theorem: the two ends
  are trimmed and the inner runs become underscores.
\<close>

theorem stableKey_shape_witness:
  "stableKey [Scalar (PStr (lit '' order  7 '')), Nested [PStr (lit ''a b''), PNull],
              Scalar (PNum (Number True (lit ''3'')))] = lit ''order_7_:a_b::3''
   \<and> filter is_ws (lit ''order_7_:a_b::3'') = []"
proof -
  let ?ps = "[Scalar (PStr (lit '' order  7 '')), Nested [PStr (lit ''a b''), PNull],
              Scalar (PNum (Number True (lit ''3'')))]"
  have j: "joined ?ps = lit '' order  7 :a b::3''"
    by (simp add: joined_def flat_def lit_def)
  have w: "ws_words (lit '' order  7 :a b::3'') = [lit ''order'', lit ''7'', lit '':a'', lit ''b::3'']"
    by (simp add: lit_def is_ws_def)
  have k: "stableKey ?ps = lit ''order_7_:a_b::3''"
    using stableKey_shape[of ?ps] by (simp add: j w) (simp add: lit_def)
  have f: "filter is_ws (stableKey ?ps) = []"
    using stableKey_shape[of ?ps] by blast
  show ?thesis
  proof (rule conjI)
    show "stableKey ?ps = lit ''order_7_:a_b::3''" by (rule k)
    show "filter is_ws (lit ''order_7_:a_b::3'') = []" using f unfolding k .
  qed
qed

text \<open>
  C10 as stated reads the key as the joined input with every maximal run of whitespace
  turned into one underscore. At \<open>stableKey(" a")\<close> the joined input is \<open>" a"\<close>, whose leading
  run would give \<open>"_a"\<close>; the code trims first and returns \<open>"a"\<close>.
\<close>

theorem stableKey_leading_run_counterexample:
  "joined [Scalar (PStr (lit '' a''))] = lit '' a''
   \<and> take 160 (replace_ws (joined [Scalar (PStr (lit '' a''))])) = lit ''_a''
   \<and> stableKey [Scalar (PStr (lit '' a''))] = lit ''a''
   \<and> lit ''a'' \<noteq> lit ''_a''"
  by (simp add: stableKey_def joined_def flat_def trim_def lit_def is_ws_def)

section \<open>Determinism of the key functions\<close>

text \<open>
  C5. Two runs of \<open>stableKey\<close>, of \<open>idempotencyKey\<close> or of \<open>IdemKey\<close> on the same arguments
  give the same key, whatever the clock and the random source are at either run, and leave
  both as they were.
\<close>

theorem idempotency_keys_deterministic:
  "fst (stableKey_run parts w1) = fst (stableKey_run parts w2)
   \<and> fst (idempotencyKey_run orderId action w1) = fst (idempotencyKey_run orderId action w2)
   \<and> fst (IdemKey_run ident action w1) = fst (IdemKey_run ident action w2)
   \<and> snd (stableKey_run parts w1) = w1
   \<and> snd (idempotencyKey_run orderId action w1) = w1
   \<and> snd (IdemKey_run ident action w1) = w1"
  by (simp add: stableKey_run_def idempotencyKey_run_def IdemKey_run_def)

text \<open>
  Two runs of \<open>idempotencyKey("o1", "refund")\<close> and of \<open>IdemKey("s1", "approve-seller")\<close>, at
  different clocks and with different random values ahead, through the theorem.
\<close>

theorem idempotency_keys_deterministic_witness:
  "fst (idempotencyKey_run (lit ''o1'') (lit ''refund'') \<lparr>clock = 5, entropy = (\<lambda>n. lit ''a''), drawn = 0\<rparr>)
     = lit ''admin-order:o1:refund''
   \<and> fst (idempotencyKey_run (lit ''o1'') (lit ''refund'') \<lparr>clock = 9, entropy = (\<lambda>n. lit ''b''), drawn = 3\<rparr>)
     = lit ''admin-order:o1:refund''
   \<and> fst (IdemKey_run (lit ''s1'') (lit ''approve-seller'') \<lparr>clock = 9, entropy = (\<lambda>n. []), drawn = 0\<rparr>)
     = lit ''admin-inbox:s1:approve-seller''"
proof -
  have k: "fst (idempotencyKey_run (lit ''o1'') (lit ''refund'') \<lparr>clock = 9, entropy = (\<lambda>n. lit ''b''), drawn = 3\<rparr>)
           = lit ''admin-order:o1:refund''"
    by (simp add: idempotencyKey_run_def idempotencyKey_def lit_def)
  have i: "fst (IdemKey_run (lit ''s1'') (lit ''approve-seller'') \<lparr>clock = 9, entropy = (\<lambda>n. []), drawn = 0\<rparr>)
           = lit ''admin-inbox:s1:approve-seller''"
    by (simp add: IdemKey_run_def IdemKey_def lit_def)
  from idempotency_keys_deterministic
    [of "[]" "\<lparr>clock = 5, entropy = (\<lambda>n. lit ''a''), drawn = 0\<rparr>" "\<lparr>clock = 9, entropy = (\<lambda>n. lit ''b''), drawn = 3\<rparr>"
        "lit ''o1''" "lit ''refund''" "lit ''s1''"]
  have "fst (idempotencyKey_run (lit ''o1'') (lit ''refund'') \<lparr>clock = 5, entropy = (\<lambda>n. lit ''a''), drawn = 0\<rparr>)
        = fst (idempotencyKey_run (lit ''o1'') (lit ''refund'') \<lparr>clock = 9, entropy = (\<lambda>n. lit ''b''), drawn = 3\<rparr>)"
    by blast
  with k i show ?thesis by simp
qed

section \<open>Properties of \<open>apiErrorMessage\<close>\<close>

lemma own_nullish: "is_nullish v \<Longrightarrow> own v k = Prim PUndefined"
  by (cases v rule: is_nullish.cases) auto

lemma get_ok: "\<not> is_nullish v \<Longrightarrow> get v k = Inr (own v k)"
  by (simp add: get_def)

lemma opt_get_own: "opt_get v k = Inr (own v k)"
  by (simp add: opt_get_def get_def own_nullish)

lemma truthy_own_not_nullish: "truthy (own v k) \<Longrightarrow> \<not> is_nullish v"
  by (cases v rule: is_nullish.cases) auto

lemma isArray_own_not_nullish: "isArray (own v k) \<Longrightarrow> \<not> is_nullish v"
  by (cases v rule: is_nullish.cases) auto

lemma index0_first_issue:
  "isArray (own d (lit ''issues'')) \<Longrightarrow> index0 (own d (lit ''issues'')) = first_issue d"
  by (cases "own d (lit ''issues'')" rule: index0.cases) (auto simp: first_issue_def)

lemma first_issue_not_array:
  "\<not> isArray (own d (lit ''issues'')) \<Longrightarrow> first_issue d = Prim PUndefined"
  by (cases "own d (lit ''issues'')" rule: index0.cases) (auto simp: first_issue_def)

text \<open>No property read of the function throws: it is a chain of tests on total reads.\<close>

lemma apiErrorMessage_unfold:
  "apiErrorMessage err fb =
     (let d = data_of err; f = first_issue d in
      if is_string d then js_String d
      else if truthy (own d (lit ''error'')) then js_String (own d (lit ''error''))
      else if truthy (own d (lit ''message'')) then js_String (own d (lit ''message''))
      else if truthy (own f (lit ''message'')) then js_String (own f (lit ''message''))
      else if truthy (own f (lit ''msg'')) then js_String (own f (lit ''msg''))
      else if truthy (own err (lit ''message'')) then js_String (own err (lit ''message''))
      else Inr (fallback_or_default fb))"
proof -
  let ?p = "if is_nullish err then Obj [] else err"
  have p: "\<And>k. own ?p k = own err k" by (simp add: own_nullish)
  have np: "\<not> is_nullish ?p" by simp
  let ?d = "data_of err"
  have gd: "truthy (own ?d k) \<Longrightarrow> get ?d k = Inr (own ?d k)" for k
    by (simp add: get_ok truthy_own_not_nullish)
  have gf: "truthy (own (first_issue ?d) k)
            \<Longrightarrow> get (first_issue ?d) k = Inr (own (first_issue ?d) k)" for k
    by (simp add: get_ok truthy_own_not_nullish)
  have gi: "isArray (own ?d (lit ''issues''))
            \<Longrightarrow> get ?d (lit ''issues'') = Inr (own ?d (lit ''issues''))"
    by (simp add: get_ok isArray_own_not_nullish)
  show ?thesis
  proof (cases "isArray (own ?d (lit ''issues''))")
    case True
    have fi: "index0 (own ?d (lit ''issues'')) = first_issue ?d"
      using True by (rule index0_first_issue)
    show ?thesis
      unfolding apiErrorMessage_def Let_def fallback_or_default_def[symmetric]
      using True
      by (simp add: get_ok[OF np] p opt_get_own and_then_def data_of_def[symmetric]
            gd gf gi fi map_sum_def split: sum.splits)
  next
    case False
    have fi: "first_issue ?d = Prim PUndefined"
      using False by (rule first_issue_not_array)
    show ?thesis
      unfolding apiErrorMessage_def Let_def fallback_or_default_def[symmetric]
      using False
      by (simp add: get_ok[OF np] p opt_get_own and_then_def data_of_def[symmetric] gd fi)
  qed
qed

lemma apiErrorMessage_refines:
  "apiErrorMessage err fb = message_by_precedence err (fallback_or_default fb)"
proof (cases "is_string (data_of err)")
  case True
  then obtain s where "data_of err = Prim (PStr s)"
    by (cases "data_of err" rule: is_string.cases) auto
  then show ?thesis
    by (simp add: apiErrorMessage_unfold message_by_precedence_def)
next
  case False
  then have nd: "(case data_of err of Prim (PStr s) \<Rightarrow> Inr s | _ \<Rightarrow> X) = X"
    for X :: "js_error + jstr"
    by (cases "data_of err" rule: is_string.cases) auto
  show ?thesis
    unfolding message_by_precedence_def nd candidates_def apiErrorMessage_unfold Let_def
    using False by simp
qed

lemma all_ok_Inr:
  "\<forall>r\<in>set rs. \<exists>x. r = Inr x \<Longrightarrow> \<exists>xs. all_ok rs = Inr xs"
proof (induction rs)
  case Nil
  then show ?case by simp
next
  case (Cons r rs)
  then obtain x xs where "r = Inr x" "all_ok rs = Inr xs" by auto
  then show ?case by simp
qed

lemma stringable_js_String: "stringable v \<Longrightarrow> \<exists>s. js_String v = Inr s"
proof (induction v rule: js_String.induct)
  case (1 p)
  then show ?case by simp
next
  case (2 xs)
  have "\<forall>r\<in>set (map (\<lambda>v. if is_nullish v then Inr [] else js_String v) xs). \<exists>x. r = Inr x"
    using 2 by (auto simp: list_all_iff)
  then obtain ss where "all_ok (map (\<lambda>v. if is_nullish v then Inr [] else js_String v) xs) = Inr ss"
    using all_ok_Inr by blast
  then show ?case by simp
next
  case (3 kvs)
  then show ?case by simp
qed

text \<open>
  C8, as the code has it. The message follows the stated precedence for every input:
  the body of the response when it is a string, else the first truthy one of \<open>data.error\<close>,
  \<open>data.message\<close>, the \<open>message\<close> and the \<open>msg\<close> of the first issue and the top-level
  \<open>message\<close>, converted with \<open>String\<close>, else the fallback. \<open>null\<close> and \<open>undefined\<close> give the
  fallback. The function returns a string whenever \<open>String\<close> converts the chosen candidate,
  that is, unless it reaches an object with an own property \<open>toString\<close>.
\<close>

theorem apiErrorMessage_precedence:
  "apiErrorMessage err fb = message_by_precedence err (fallback_or_default fb)
   \<and> apiErrorMessage (Prim PNull) fb = Inr (fallback_or_default fb)
   \<and> apiErrorMessage (Prim PUndefined) fb = Inr (fallback_or_default fb)
   \<and> (chosen_stringable err \<longrightarrow> (\<exists>s. apiErrorMessage err fb = Inr s))"
proof -
  have a: "apiErrorMessage e fb = message_by_precedence e (fallback_or_default fb)" for e
    by (rule apiErrorMessage_refines)
  have n: "message_by_precedence (Prim p) f = Inr f" for p f
    by (simp add: message_by_precedence_def candidates_def data_of_def first_issue_def Let_def)
  have s: "\<exists>s. apiErrorMessage err fb = Inr s" if c: "chosen_stringable err"
  proof (cases "is_string (data_of err)")
    case True
    then obtain t where "data_of err = Prim (PStr t)"
      by (cases "data_of err" rule: is_string.cases) auto
    then show ?thesis by (simp add: a message_by_precedence_def)
  next
    case False
    then have nd: "(case data_of err of Prim (PStr s) \<Rightarrow> Inr s | _ \<Rightarrow> X) = X"
      for X :: "js_error + jstr"
      by (cases "data_of err" rule: is_string.cases) auto
    show ?thesis
    proof (cases "find truthy (candidates err)")
      case None
      then show ?thesis unfolding a message_by_precedence_def nd by simp
    next
      case (Some v)
      with c have "stringable v" by (simp add: chosen_stringable_def)
      then obtain t where "js_String v = Inr t" using stringable_js_String by blast
      with Some show ?thesis unfolding a message_by_precedence_def nd by simp
    qed
  qed
  show ?thesis using a n s by simp
qed

text \<open>
  An error whose response body is \<open>{"issues": [{"msg": "bad"}]}\<close> and whose own message is
  \<open>"top"\<close>: the issue wins over the top-level message.
\<close>

theorem apiErrorMessage_precedence_witness:
  "chosen_stringable
     (Obj [(lit ''message'', Prim (PStr (lit ''top''))),
           (lit ''response'', Obj [(lit ''data'',
              Obj [(lit ''issues'', Arr [Obj [(lit ''msg'', Prim (PStr (lit ''bad'')))]])])])])
   \<and> apiErrorMessage
     (Obj [(lit ''message'', Prim (PStr (lit ''top''))),
           (lit ''response'', Obj [(lit ''data'',
              Obj [(lit ''issues'', Arr [Obj [(lit ''msg'', Prim (PStr (lit ''bad'')))]])])])])
     None = Inr (lit ''bad'')"
proof -
  let ?e = "Obj [(lit ''message'', Prim (PStr (lit ''top''))),
           (lit ''response'', Obj [(lit ''data'',
              Obj [(lit ''issues'', Arr [Obj [(lit ''msg'', Prim (PStr (lit ''bad'')))]])])])]"
  have c: "chosen_stringable ?e"
    by (simp add: chosen_stringable_def candidates_def data_of_def first_issue_def lit_def)
  have m: "message_by_precedence ?e (fallback_or_default None) = Inr (lit ''bad'')"
    by (simp add: message_by_precedence_def candidates_def data_of_def first_issue_def lit_def)
  from apiErrorMessage_precedence[of ?e None] have "apiErrorMessage ?e None = Inr (lit ''bad'')"
    unfolding m by blast
  with c show ?thesis by blast
qed

text \<open>
  C8 as stated has no input throw. A response body \<open>{"error": {"toString": "x"}}\<close> is
  truthy at \<open>data.error\<close>, and \<open>String\<close> of that object throws a TypeError.
\<close>

theorem apiErrorMessage_throws_counterexample:
  "apiErrorMessage
     (Obj [(lit ''response'', Obj [(lit ''data'',
        Obj [(lit ''error'', Obj [(lit ''toString'', Prim (PStr (lit ''x'')))])])])])
     None = Inl TypeError"
  by (simp add: apiErrorMessage_unfold data_of_def first_issue_def lit_def)

section \<open>Properties of \<open>pickPrimaryImage\<close>\<close>

lemma hd_insert_by: "hd (insert_by cmp x ys) = (if ys = [] \<or> cmp x (hd ys) \<le> 0 then x else hd ys)"
  by (cases ys) auto

lemma insert_by_ne: "insert_by cmp x ys \<noteq> []"
  by (cases ys) auto

lemma js_sort_Cons: "js_sort cmp (x # xs) = insert_by cmp x (js_sort cmp xs)"
  by (simp add: js_sort_def)

lemma js_sort_Nil_iff: "js_sort cmp xs = [] \<longleftrightarrow> xs = []"
  by (cases xs) (auto simp: js_sort_def insert_by_ne)

lemma compare_images_trans:
  "compare_images a b \<le> 0 \<Longrightarrow> compare_images b c \<le> 0 \<Longrightarrow> compare_images a c \<le> 0"
  by (auto simp: compare_images_def Let_def split: if_splits)

lemma compare_images_total: "compare_images a b \<le> 0 \<or> compare_images b a \<le> 0"
  by (auto simp: compare_images_def Let_def split: if_splits)

lemma compare_images_refl: "compare_images a a \<le> 0"
  by (auto simp: compare_images_def Let_def)

text \<open>The first element after sorting is an element that the comparator puts before all.\<close>

lemma hd_js_sort_least:
  "xs \<noteq> [] \<Longrightarrow> hd (js_sort compare_images xs) \<in> set xs
     \<and> (\<forall>y\<in>set xs. compare_images (hd (js_sort compare_images xs)) y \<le> 0)"
proof (induction xs)
  case Nil
  then show ?case by simp
next
  case (Cons x xs)
  show ?case
  proof (cases "xs = []")
    case True
    then show ?thesis by (simp add: js_sort_def compare_images_refl)
  next
    case False
    let ?m = "hd (js_sort compare_images xs)"
    from Cons.IH[OF False] have m_in: "?m \<in> set xs"
      and m_le: "\<forall>y\<in>set xs. compare_images ?m y \<le> 0" by auto
    have ne: "js_sort compare_images xs \<noteq> []" using False by (simp add: js_sort_Nil_iff)
    show ?thesis
    proof (cases "compare_images x ?m \<le> 0")
      case True
      then have "hd (js_sort compare_images (x # xs)) = x"
        by (simp add: js_sort_Cons hd_insert_by)
      moreover have "\<forall>y\<in>set xs. compare_images x y \<le> 0"
        using True m_le compare_images_trans by blast
      ultimately show ?thesis by (simp add: compare_images_refl)
    next
      case above: False
      then have "hd (js_sort compare_images (x # xs)) = ?m"
        using ne by (simp add: js_sort_Cons hd_insert_by)
      moreover have "compare_images ?m x \<le> 0" using above compare_images_total by blast
      ultimately show ?thesis using m_in m_le by simp
    qed
  qed
qed

lemma least_is_primary:
  "\<forall>y\<in>set xs. compare_images m y \<le> 0 \<Longrightarrow> p \<in> set xs \<Longrightarrow> isPrimary p = Some True
   \<Longrightarrow> isPrimary m = Some True"
  by (fastforce simp: compare_images_def Let_def split: if_splits)

lemma least_is_min_sort:
  "\<forall>y\<in>set xs. compare_images m y \<le> 0 \<Longrightarrow> m \<in> set xs
   \<Longrightarrow> \<forall>p\<in>set xs. isPrimary p \<noteq> Some True \<Longrightarrow> y \<in> set xs
   \<Longrightarrow> sort_or_zero m \<le> sort_or_zero y"
  by (fastforce simp: compare_images_def Let_def split: if_splits)

lemma pickPrimaryImage_nonempty:
  assumes "arrays h r = Some xs" and "xs \<noteq> []"
  shows "pickPrimaryImage h (Images r) =
           (Some (url (hd (js_sort compare_images xs))),
            h\<lparr>arrays := (arrays h)(next_ref h \<mapsto> js_sort compare_images xs),
              next_ref := Suc (next_ref h)\<rparr>)"
proof -
  obtain z zs where z: "js_sort compare_images xs = z # zs"
    using assms(2) js_sort_Nil_iff[of compare_images xs] by (cases "js_sort compare_images xs") auto
  show ?thesis
    using assms by (simp add: pickPrimaryImage_def alloc_def sort_in_place_def z)
qed

lemma pickPrimaryImage_none:
  "images_of h images = None \<or> images_of h images = Some [] \<Longrightarrow> pickPrimaryImage h images = (None, h)"
  by (cases images) (auto simp: pickPrimaryImage_def)

text \<open>
  C9. On a heap whose references are below the allocation mark, \<open>pickPrimaryImage\<close> returns
  \<open>null\<close> exactly when the argument is \<open>null\<close>, \<open>undefined\<close> or an empty array; it leaves
  every array of the heap, the argument among them, as it was; and for a non-empty array it
  returns the url of one of its elements, which has \<open>isPrimary\<close> true when some element has,
  and otherwise has the least sort value, a missing one counting as 0.
\<close>

theorem pickPrimaryImage_spec:
  assumes "heap_ok h"
  shows "(fst (pickPrimaryImage h images) = None
            \<longleftrightarrow> images_of h images = None \<or> images_of h images = Some [])
   \<and> (\<forall>r\<in>dom (arrays h). arrays (snd (pickPrimaryImage h images)) r = arrays h r)
   \<and> (\<forall>xs. images_of h images = Some xs \<and> xs \<noteq> [] \<longrightarrow>
        (\<exists>m\<in>set xs. fst (pickPrimaryImage h images) = Some (url m)
            \<and> ((\<exists>p\<in>set xs. isPrimary p = Some True) \<longrightarrow> isPrimary m = Some True)
            \<and> ((\<forall>p\<in>set xs. isPrimary p \<noteq> Some True)
                 \<longrightarrow> (\<forall>y\<in>set xs. sort_or_zero m \<le> sort_or_zero y))))"
proof (cases "images_of h images = None \<or> images_of h images = Some []")
  case True
  then have "pickPrimaryImage h images = (None, h)" by (rule pickPrimaryImage_none)
  with True show ?thesis by auto
next
  case False
  then obtain r xs where im: "images = Images r" and xs: "arrays h r = Some xs" and ne: "xs \<noteq> []"
    by (cases images) auto
  let ?s = "js_sort compare_images xs"
  let ?m = "hd ?s"
  have pick: "pickPrimaryImage h images =
           (Some (url ?m), h\<lparr>arrays := (arrays h)(next_ref h \<mapsto> ?s), next_ref := Suc (next_ref h)\<rparr>)"
    unfolding im using xs ne by (rule pickPrimaryImage_nonempty)
  have m_in: "?m \<in> set xs" and m_le: "\<forall>y\<in>set xs. compare_images ?m y \<le> 0"
    using hd_js_sort_least[OF ne] by auto
  have keep: "\<forall>r'\<in>dom (arrays h). arrays (snd (pickPrimaryImage h images)) r' = arrays h r'"
  proof
    fix r' assume "r' \<in> dom (arrays h)"
    then have "r' < next_ref h" using assms by (simp add: heap_ok_def)
    then show "arrays (snd (pickPrimaryImage h images)) r' = arrays h r'"
      by (simp add: pick)
  qed
  have prim: "(\<exists>p\<in>set xs. isPrimary p = Some True) \<longrightarrow> isPrimary ?m = Some True"
    using m_le least_is_primary by blast
  have least: "(\<forall>p\<in>set xs. isPrimary p \<noteq> Some True)
                 \<longrightarrow> (\<forall>y\<in>set xs. sort_or_zero ?m \<le> sort_or_zero y)"
    using m_le m_in least_is_min_sort by blast
  have res: "fst (pickPrimaryImage h images) = Some (url ?m)" by (simp add: pick)
  have third: "\<forall>ys. images_of h images = Some ys \<and> ys \<noteq> [] \<longrightarrow>
        (\<exists>m\<in>set ys. fst (pickPrimaryImage h images) = Some (url m)
            \<and> ((\<exists>p\<in>set ys. isPrimary p = Some True) \<longrightarrow> isPrimary m = Some True)
            \<and> ((\<forall>p\<in>set ys. isPrimary p \<noteq> Some True)
                 \<longrightarrow> (\<forall>y\<in>set ys. sort_or_zero m \<le> sort_or_zero y)))"
  proof (intro allI impI)
    fix ys assume "images_of h images = Some ys \<and> ys \<noteq> []"
    then have "ys = xs" using im xs by simp
    then show "\<exists>m\<in>set ys. fst (pickPrimaryImage h images) = Some (url m)
            \<and> ((\<exists>p\<in>set ys. isPrimary p = Some True) \<longrightarrow> isPrimary m = Some True)
            \<and> ((\<forall>p\<in>set ys. isPrimary p \<noteq> Some True)
                 \<longrightarrow> (\<forall>y\<in>set ys. sort_or_zero m \<le> sort_or_zero y))"
      using m_in res prim least by blast
  qed
  have first: "fst (pickPrimaryImage h images) = None
            \<longleftrightarrow> images_of h images = None \<or> images_of h images = Some []"
    using False res by simp
  show ?thesis using first keep third by blast
qed

text \<open>
  Three images, none primary, with sort values 2, missing and -1: the third is picked, and
  the array at reference 0 still holds the three in their order.
\<close>

theorem pickPrimaryImage_spec_witness:
  "heap_ok \<lparr>arrays = [0 \<mapsto>
       [\<lparr>id_img = lit ''1'', url = lit ''a'', key_img = None, isPrimary = None,
         sort_img = Some 2, mime = None, size_img = None\<rparr>,
        \<lparr>id_img = lit ''2'', url = lit ''b'', key_img = None, isPrimary = Some False,
         sort_img = None, mime = None, size_img = None\<rparr>,
        \<lparr>id_img = lit ''3'', url = lit ''c'', key_img = None, isPrimary = None,
         sort_img = Some (- 1), mime = None, size_img = None\<rparr>]], next_ref = 1\<rparr>
   \<and> fst (pickPrimaryImage \<lparr>arrays = [0 \<mapsto>
       [\<lparr>id_img = lit ''1'', url = lit ''a'', key_img = None, isPrimary = None,
         sort_img = Some 2, mime = None, size_img = None\<rparr>,
        \<lparr>id_img = lit ''2'', url = lit ''b'', key_img = None, isPrimary = Some False,
         sort_img = None, mime = None, size_img = None\<rparr>,
        \<lparr>id_img = lit ''3'', url = lit ''c'', key_img = None, isPrimary = None,
         sort_img = Some (- 1), mime = None, size_img = None\<rparr>]], next_ref = 1\<rparr> (Images 0))
       = Some (lit ''c'')
   \<and> arrays (snd (pickPrimaryImage \<lparr>arrays = [0 \<mapsto>
       [\<lparr>id_img = lit ''1'', url = lit ''a'', key_img = None, isPrimary = None,
         sort_img = Some 2, mime = None, size_img = None\<rparr>,
        \<lparr>id_img = lit ''2'', url = lit ''b'', key_img = None, isPrimary = Some False,
         sort_img = None, mime = None, size_img = None\<rparr>,
        \<lparr>id_img = lit ''3'', url = lit ''c'', key_img = None, isPrimary = None,
         sort_img = Some (- 1), mime = None, size_img = None\<rparr>]], next_ref = 1\<rparr> (Images 0))) 0
       = Some [\<lparr>id_img = lit ''1'', url = lit ''a'', key_img = None, isPrimary = None,
         sort_img = Some 2, mime = None, size_img = None\<rparr>,
        \<lparr>id_img = lit ''2'', url = lit ''b'', key_img = None, isPrimary = Some False,
         sort_img = None, mime = None, size_img = None\<rparr>,
        \<lparr>id_img = lit ''3'', url = lit ''c'', key_img = None, isPrimary = None,
         sort_img = Some (- 1), mime = None, size_img = None\<rparr>]"
proof -
  let ?xs = "[\<lparr>id_img = lit ''1'', url = lit ''a'', key_img = None, isPrimary = None,
         sort_img = Some 2, mime = None, size_img = None\<rparr>,
        \<lparr>id_img = lit ''2'', url = lit ''b'', key_img = None, isPrimary = Some False,
         sort_img = None, mime = None, size_img = None\<rparr>,
        \<lparr>id_img = lit ''3'', url = lit ''c'', key_img = None, isPrimary = None,
         sort_img = Some (- 1), mime = None, size_img = None\<rparr>]"
  let ?h = "\<lparr>arrays = [0 \<mapsto> ?xs], next_ref = 1\<rparr>"
  have ok: "heap_ok ?h" by (simp add: heap_ok_def)
  have val: "fst (pickPrimaryImage ?h (Images 0)) = Some (lit ''c'')"
    by (simp add: pickPrimaryImage_def alloc_def sort_in_place_def js_sort_def
          compare_images_def sort_or_zero_def)
  have "\<forall>r\<in>dom (arrays ?h). arrays (snd (pickPrimaryImage ?h (Images 0))) r = arrays ?h r"
    using pickPrimaryImage_spec[OF ok, of "Images 0"] by blast
  then have "arrays (snd (pickPrimaryImage ?h (Images 0))) 0 = Some ?xs" by simp
  with ok val show ?thesis by blast
qed

section \<open>Properties of the response interceptor\<close>

lemma retry_candidate_Some_iff:
  "retry_candidate err = Some original \<longleftrightarrow>
     map_option status (response err) = Some 401
     \<and> (\<exists>c. config err = Some c
            \<and> \<not> js_includes (case url_cfg c of None \<Rightarrow> [] | Some u \<Rightarrow> u) refresh_endpoint
            \<and> retry c \<noteq> Some True \<and> original = c\<lparr>retry := Some True\<rparr>)"
  by (auto simp: retry_candidate_def Let_def split: option.splits)

lemma retry_candidate_None_iff:
  "retry_candidate err = None \<longleftrightarrow>
     \<not> (map_option status (response err) = Some 401
        \<and> (\<exists>c. config err = Some c
            \<and> \<not> js_includes (case url_cfg c of None \<Rightarrow> [] | Some u \<Rightarrow> u) refresh_endpoint
            \<and> retry c \<noteq> Some True))"
  by (auto simp: retry_candidate_def Let_def split: option.splits)

lemma clearAll_keeps [simp]:
  "wire (clearAll st) = wire st" "refreshing (clearAll st) = refreshing st"
  "promises (clearAll st) = promises st" "refresh_calls (clearAll st) = refresh_calls st"
  by (simp_all add: clearAll_def split: option.splits)

lemma on_refresh_failed_keeps:
  "wire (snd (on_refresh_failed e st)) = wire st"
  "refreshing (snd (on_refresh_failed e st)) = refreshing st"
  "promises (snd (on_refresh_failed e st)) = promises st"
  "refresh_calls (snd (on_refresh_failed e st)) = refresh_calls st"
  by (simp_all add: on_refresh_failed_def Let_def split: option.splits sum.splits)

lemma resume_keeps:
  "wire (snd (resume outcome original st)) = wire st"
  "refreshing (snd (resume outcome original st)) = refreshing st"
  "promises (snd (resume outcome original st)) = promises st"
  "refresh_calls (snd (resume outcome original st)) = refresh_calls st"
  by (simp_all add: resume_def on_refresh_failed_keeps split: sum.splits)

lemma setAccessToken_keeps:
  "setAccessToken token st = Inr st1 \<Longrightarrow>
     wire st1 = wire st \<and> refreshing st1 = refreshing st \<and> promises st1 = promises st
     \<and> refresh_calls st1 = refresh_calls st"
  by (auto simp: setAccessToken_def split: option.splits sum.splits)

lemma refresh_body_keeps:
  "wire (snd (refresh_body r st)) = wire st"
  "refreshing (snd (refresh_body r st)) = refreshing st"
  "promises (snd (refresh_body r st)) = promises st"
  "refresh_calls (snd (refresh_body r st)) = refresh_calls st"
  by (auto simp: refresh_body_def Let_def dest: setAccessToken_keeps split: reply.splits sum.splits)

lemma await_refreshAccessToken_effect:
  "refresh_calls (snd (await_refreshAccessToken n st)) = Suc (refresh_calls st)"
  "refreshing (snd (await_refreshAccessToken n st)) = None"
  "wire (snd (await_refreshAccessToken n st))
     = (if refreshing st = None then wire st @ [Refresh_POST] else wire st)"
  by (simp_all add: await_refreshAccessToken_def refreshAccessToken_call_def refresh_finally_def
        refresh_body_keeps split_beta Let_def split: option.splits)

lemma on_rejected_refuses:
  "retry_candidate err = None \<Longrightarrow> on_rejected n err st = (Reject (Axios err), st)"
  by (simp add: on_rejected_def)

lemma on_rejected_refreshes:
  "retry_candidate err = Some original \<Longrightarrow>
     on_rejected n err st
       = resume (fst (await_refreshAccessToken n st)) original (snd (await_refreshAccessToken n st))"
  by (simp add: on_rejected_def split_beta)

text \<open>
  C6. The handler calls \<open>refreshAccessToken\<close> exactly when the status of the error is 401,
  the configuration of the request is there, its url does not contain the path of the refresh
  endpoint (the test of the source for a request to that endpoint) and it is not marked
  \<open>_retry\<close>. In that case, when nothing is pending the refresh POST is sent, and when the
  refresh gives a token that \<open>String\<close> converts the request is handed back to \<open>api\<close>. In every
  other case the error is rejected as it came and the state is untouched.
\<close>

theorem refresh_exactly_on_expired:
  "(refresh_calls (snd (on_rejected n err st)) = Suc (refresh_calls st)
      \<longleftrightarrow> map_option status (response err) = Some 401
          \<and> (\<exists>c. config err = Some c
                 \<and> \<not> js_includes (case url_cfg c of None \<Rightarrow> [] | Some u \<Rightarrow> u) refresh_endpoint
                 \<and> retry c \<noteq> Some True))
   \<and> (refresh_calls (snd (on_rejected n err st)) \<noteq> Suc (refresh_calls st)
        \<longrightarrow> on_rejected n err st = (Reject (Axios err), st))
   \<and> (refresh_calls (snd (on_rejected n err st)) = Suc (refresh_calls st) \<and> refreshing st = None
        \<longrightarrow> wire (snd (on_rejected n err st)) = wire st @ [Refresh_POST])
   \<and> (\<forall>tok t. refresh_calls (snd (on_rejected n err st)) = Suc (refresh_calls st)
        \<and> fst (await_refreshAccessToken n st) = Inr tok \<and> js_String tok = Inr t
        \<longrightarrow> (\<exists>c. fst (on_rejected n err st) = Reissue c))"
proof (cases "retry_candidate err")
  case None
  then have r: "on_rejected n err st = (Reject (Axios err), st)" by (rule on_rejected_refuses)
  from None show ?thesis unfolding r by (simp add: retry_candidate_None_iff)
next
  case (Some original)
  let ?a = "await_refreshAccessToken n st"
  have r: "on_rejected n err st = resume (fst ?a) original (snd ?a)"
    using Some by (rule on_rejected_refreshes)
  have calls: "refresh_calls (snd (on_rejected n err st)) = Suc (refresh_calls st)"
    by (simp add: r resume_keeps await_refreshAccessToken_effect)
  have w: "refreshing st = None \<Longrightarrow> wire (snd (on_rejected n err st)) = wire st @ [Refresh_POST]"
    by (simp add: r resume_keeps await_refreshAccessToken_effect)
  have handed: "\<exists>c. fst (on_rejected n err st) = Reissue c"
    if "fst ?a = Inr tok" and "js_String tok = Inr t" for tok t
    using that by (simp add: r resume_def)
  have cond: "map_option status (response err) = Some 401
          \<and> (\<exists>c. config err = Some c
                 \<and> \<not> js_includes (case url_cfg c of None \<Rightarrow> [] | Some u \<Rightarrow> u) refresh_endpoint
                 \<and> retry c \<noteq> Some True)"
    using Some by (auto simp: retry_candidate_Some_iff)
  show ?thesis using calls w handed cond by blast
qed

lemma sample_candidate:
  "retry_candidate (sample_401 sample_request) = Some (sample_request\<lparr>retry := Some True\<rparr>)"
  by (simp add: retry_candidate_def sample_401_def sample_request_def refresh_endpoint_def lit_def)

lemma sample_refusal:
  "retry_candidate (sample_401 (sample_request\<lparr>retry := Some True\<rparr>)) = None"
  by (simp add: retry_candidate_def sample_401_def sample_request_def refresh_endpoint_def lit_def)

lemma sample_await_ok:
  "await_refreshAccessToken net_refresh_ok (mem (start w))
     = (Inr (Prim (PStr (lit ''new''))),
        \<lparr>window = (case w of None \<Rightarrow> None
                    | Some x \<Rightarrow> Some (x\<lparr>localStorage := (localStorage x)(ACCESS_TOKEN_KEY \<mapsto> lit ''new'')\<rparr>)),
          refreshing = None, promises = 1, refresh_calls = 1, wire = [Refresh_POST]\<rparr>)"
  by (cases w)
     (simp_all add: await_refreshAccessToken_def refreshAccessToken_call_def start_def
        net_refresh_ok_def refresh_body_def extractAccessToken_def nc_def setAccessToken_def
        refresh_finally_def lit_def)


theorem refresh_exactly_on_expired_witness:
  "refresh_calls (snd (on_rejected net_refresh_ok (sample_401 sample_request)
                         (mem (start (Some sample_window))))) = Suc 0
   \<and> wire (snd (on_rejected net_refresh_ok (sample_401 sample_request)
                         (mem (start (Some sample_window))))) = [Refresh_POST]
   \<and> (\<exists>c. fst (on_rejected net_refresh_ok (sample_401 sample_request)
                         (mem (start (Some sample_window)))) = Reissue c)
   \<and> on_rejected net_refresh_ok (sample_401 (sample_request\<lparr>retry := Some True\<rparr>))
        (mem (start (Some sample_window)))
      = (Reject (Axios (sample_401 (sample_request\<lparr>retry := Some True\<rparr>))),
         mem (start (Some sample_window)))"
proof -
  let ?st = "mem (start (Some sample_window))"
  let ?e = "sample_401 sample_request"
  let ?e2 = "sample_401 (sample_request\<lparr>retry := Some True\<rparr>)"
  have cond: "map_option status (response ?e) = Some 401
          \<and> (\<exists>c. config ?e = Some c
                 \<and> \<not> js_includes (case url_cfg c of None \<Rightarrow> [] | Some u \<Rightarrow> u) refresh_endpoint
                 \<and> retry c \<noteq> Some True)"
    using sample_candidate unfolding retry_candidate_Some_iff by blast
  have ncond: "\<not> (map_option status (response ?e2) = Some 401
          \<and> (\<exists>c. config ?e2 = Some c
                 \<and> \<not> js_includes (case url_cfg c of None \<Rightarrow> [] | Some u \<Rightarrow> u) refresh_endpoint
                 \<and> retry c \<noteq> Some True))"
    using sample_refusal unfolding retry_candidate_None_iff by blast
  have st: "refresh_calls ?st = 0" "refreshing ?st = None" "wire ?st = []"
    by (simp_all add: start_def)
  have tok: "fst (await_refreshAccessToken net_refresh_ok ?st) = Inr (Prim (PStr (lit ''new'')))"
    by (simp add: sample_await_ok)
  have str: "js_String (Prim (PStr (lit ''new''))) = Inr (lit ''new'')" by simp
  note T = refresh_exactly_on_expired[of net_refresh_ok ?e ?st]
  note T2 = refresh_exactly_on_expired[of net_refresh_ok ?e2 ?st]
  from T cond have calls: "refresh_calls (snd (on_rejected net_refresh_ok ?e ?st)) = Suc (refresh_calls ?st)"
    by blast
  from T calls st(2) have w: "wire (snd (on_rejected net_refresh_ok ?e ?st)) = wire ?st @ [Refresh_POST]"
    by blast
  from T calls tok str have re: "\<exists>c. fst (on_rejected net_refresh_ok ?e ?st) = Reissue c"
    by blast
  from T2 ncond have "refresh_calls (snd (on_rejected net_refresh_ok ?e2 ?st)) \<noteq> Suc (refresh_calls ?st)"
    by blast
  with T2 have rej: "on_rejected net_refresh_ok ?e2 ?st = (Reject (Axios ?e2), ?st)"
    by blast
  show ?thesis using calls w re rej by (simp add: st)
qed

section \<open>At most one retry\<close>

lemma request_interceptor_retry [simp]: "retry (request_interceptor c st) = retry c"
  by (simp add: request_interceptor_def set_Authorization_def split: option.splits)

lemma on_rejected_Reissue_marked:
  "on_rejected n err st = (Reissue c, st1) \<Longrightarrow>
     retry c = Some True \<and> (\<exists>c0. config err = Some c0 \<and> retry c0 \<noteq> Some True)"
proof -
  assume o: "on_rejected n err st = (Reissue c, st1)"
  then obtain original where cand: "retry_candidate err = Some original"
    by (cases "retry_candidate err") (auto simp: on_rejected_def)
  then obtain c0 where c0: "config err = Some c0" "retry c0 \<noteq> Some True"
      "original = c0\<lparr>retry := Some True\<rparr>"
    by (auto simp: retry_candidate_Some_iff)
  have "retry c = Some True"
    using o c0(3) unfolding on_rejected_refreshes[OF cand]
    by (auto simp: resume_def on_refresh_failed_def Let_def set_Authorization_def
             split: sum.splits option.splits)
  with c0 show ?thesis by blast
qed

lemma on_rejected_marked:
  "config err = Some c \<Longrightarrow> retry c = Some True \<Longrightarrow> on_rejected n err st = (Reject (Axios err), st)"
  by (rule on_rejected_refuses) (simp add: retry_candidate_None_iff)

lemma on_rejected_wire:
  "wire (snd (on_rejected n err st)) = wire st
   \<or> wire (snd (on_rejected n err st)) = wire st @ [Refresh_POST]"
proof (cases "retry_candidate err")
  case None
  then show ?thesis by (simp add: on_rejected_refuses)
next
  case (Some original)
  then show ?thesis
    by (simp add: on_rejected_refreshes resume_keeps await_refreshAccessToken_effect)
qed

lemma api_marked:
  assumes "retry c = Some True"
  shows "api n c st =
     (case answer n (length (wire st)) (request_interceptor c st) of
        Replied res \<Rightarrow> (Inr res, st\<lparr>wire := wire st @ [Api_request (request_interceptor c st)]\<rparr>)
      | Failed resp \<Rightarrow>
          (Inl (Axios \<lparr>response = resp, config = Some (request_interceptor c st)\<rparr>),
           st\<lparr>wire := wire st @ [Api_request (request_interceptor c st)]\<rparr>))"
proof -
  have "on_rejected n \<lparr>response = resp, config = Some (request_interceptor c st)\<rparr> s
        = (Reject (Axios \<lparr>response = resp, config = Some (request_interceptor c st)\<rparr>), s)"
    for resp s
    by (rule on_rejected_marked[where c = "request_interceptor c st"]) (simp_all add: assms)
  then show ?thesis
    by (subst api.simps) (simp add: Let_def split: reply.splits)
qed

lemma api_marked_wire:
  "retry c = Some True \<Longrightarrow>
     wire (snd (api n c st)) = wire st @ [Api_request (request_interceptor c st)]"
  by (simp add: api_marked split: reply.splits)

lemma api_at_most_two:
  "api_requests (wire (snd (api n c st))) \<le> api_requests (wire st) + 2"
proof -
  let ?c1 = "request_interceptor c st"
  let ?st1 = "st\<lparr>wire := wire st @ [Api_request ?c1]\<rparr>"
  show ?thesis
  proof (cases "answer n (length (wire st)) ?c1")
    case (Replied res)
    then show ?thesis
      by (subst api.simps) (simp add: Let_def api_requests_def)
  next
    case (Failed resp)
    let ?err = "\<lparr>response = resp, config = Some ?c1\<rparr>"
    obtain a st2 where o: "on_rejected n ?err ?st1 = (a, st2)" by (cases "on_rejected n ?err ?st1")
    have w2: "wire st2 = wire ?st1 \<or> wire st2 = wire ?st1 @ [Refresh_POST]"
      using on_rejected_wire[of n ?err ?st1] o by simp
    then have n2: "api_requests (wire st2) = api_requests (wire st) + 1"
      by (auto simp: api_requests_def)
    show ?thesis
    proof (cases a)
      case (Reject e)
      then have "api n c st = (Inl e, st2)"
        using Failed o by (subst api.simps) (simp add: Let_def)
      then show ?thesis using n2 by simp
    next
      case (Reissue c2)
      then have m: "retry c2 = Some True"
        using o on_rejected_Reissue_marked by blast
      have "api n c st = api n c2 st2"
        using Failed o Reissue by (subst api.simps) (simp add: Let_def)
      then have "wire (snd (api n c st)) = wire st2 @ [Api_request (request_interceptor c2 st2)]"
        by (simp add: api_marked_wire[OF m])
      then show ?thesis using n2 by (simp add: api_requests_def)
    qed
  qed
qed

text \<open>
  C2. A request is repeated at most once. An error whose configuration carries \<open>_retry\<close> is
  rejected as it came, with the state untouched: no refresh, no request. A configuration
  the handler hands back to \<open>api\<close> carries the mark. So a call of \<open>api\<close> puts at most two
  requests on the wire, the original and one repetition, and a call with a marked
  configuration puts exactly one.
\<close>

theorem retried_at_most_once:
  "(\<forall>c0. config err = Some c0 \<and> retry c0 = Some True
          \<longrightarrow> on_rejected n err st = (Reject (Axios err), st))
   \<and> (\<forall>c1 st1. on_rejected n err st = (Reissue c1, st1) \<longrightarrow> retry c1 = Some True)
   \<and> api_requests (wire (snd (api n c st))) \<le> api_requests (wire st) + 2
   \<and> (retry c = Some True
        \<longrightarrow> wire (snd (api n c st)) = wire st @ [Api_request (request_interceptor c st)])"
  using on_rejected_marked[of err _ n st] on_rejected_Reissue_marked[of n err st]
    api_at_most_two[of n c st] api_marked_wire[of c n st]
  by blast

text \<open>
  The sample request when every request is answered 401 and the refresh succeeds: the
  request, the refresh, one repetition with the new token, and the second 401 is final.
\<close>

theorem retried_at_most_once_witness:
  "config (sample_401 (sample_request\<lparr>retry := Some True\<rparr>)) = Some (sample_request\<lparr>retry := Some True\<rparr>)
   \<and> retry (sample_request\<lparr>retry := Some True\<rparr>) = Some True
   \<and> on_rejected net_refresh_ok (sample_401 (sample_request\<lparr>retry := Some True\<rparr>))
        (mem (start (Some sample_window)))
      = (Reject (Axios (sample_401 (sample_request\<lparr>retry := Some True\<rparr>))),
         mem (start (Some sample_window)))
   \<and> wire (snd (api net_refresh_ok sample_request (mem (start (Some sample_window)))))
      = [Api_request (set_Authorization (lit ''old'') sample_request),
         Refresh_POST,
         Api_request (set_Authorization (lit ''new'')
            (set_Authorization (lit ''new'') (sample_request\<lparr>retry := Some True\<rparr>)))]
   \<and> api_requests (wire (snd (api net_refresh_ok sample_request
                                 (mem (start (Some sample_window)))))) \<le> 2"
proof -
  let ?m = "sample_request\<lparr>retry := Some True\<rparr>"
  let ?st = "mem (start (Some sample_window))"
  have c: "config (sample_401 ?m) = Some ?m" by (simp add: sample_401_def)
  have r: "retry ?m = Some True" by simp
  from retried_at_most_once[of "sample_401 ?m" net_refresh_ok ?st sample_request] c r
  have rej: "on_rejected net_refresh_ok (sample_401 ?m) ?st = (Reject (Axios (sample_401 ?m)), ?st)"
    by blast
  from retried_at_most_once[of "sample_401 ?m" net_refresh_ok ?st sample_request]
  have two: "api_requests (wire (snd (api net_refresh_ok sample_request ?st))) \<le> 2"
    by (simp add: api_requests_def start_def)
  let ?c1 = "set_Authorization (lit ''old'') sample_request"
  let ?st1 = "?st\<lparr>wire := [Api_request ?c1]\<rparr>"
  have ri: "request_interceptor sample_request ?st = ?c1"
    by (simp add: request_interceptor_def getAccessToken_def start_def sample_window_def
          ACCESS_TOKEN_KEY_def ME_KEY_def lit_def)
  have w0: "wire ?st = []" by (simp add: start_def)
  have e1: "\<lparr>response = Some \<lparr>status = 401, data = Prim PNull\<rparr>, config = Some ?c1\<rparr> = sample_401 ?c1"
    by (simp add: sample_401_def)
  have cand: "retry_candidate (sample_401 ?c1) = Some (?c1\<lparr>retry := Some True\<rparr>)"
    by (simp add: retry_candidate_def sample_401_def sample_request_def set_Authorization_def
          refresh_endpoint_def lit_def)
  have st1: "?st1 = mem (start (Some sample_window))\<lparr>wire := [Api_request ?c1]\<rparr>" by simp
  let ?st2 = "\<lparr>window = Some (sample_window\<lparr>localStorage :=
                   (localStorage sample_window)(ACCESS_TOKEN_KEY \<mapsto> lit ''new'')\<rparr>),
               refreshing = None, promises = 1, refresh_calls = 1,
               wire = [Api_request ?c1, Refresh_POST]\<rparr>"
  have aw: "await_refreshAccessToken net_refresh_ok ?st1 = (Inr (Prim (PStr (lit ''new''))), ?st2)"
    by (simp add: await_refreshAccessToken_def refreshAccessToken_call_def start_def
        net_refresh_ok_def refresh_body_def extractAccessToken_def nc_def setAccessToken_def
        refresh_finally_def lit_def)
  have o: "on_rejected net_refresh_ok (sample_401 ?c1) ?st1
           = (Reissue (set_Authorization (lit ''new'') (?c1\<lparr>retry := Some True\<rparr>)), ?st2)"
    unfolding on_rejected_refreshes[OF cand] aw by (simp add: resume_def)
  let ?c2 = "set_Authorization (lit ''new'') (?c1\<lparr>retry := Some True\<rparr>)"
  have c2: "?c2 = set_Authorization (lit ''new'') ?m"
    by (simp add: set_Authorization_def sample_request_def fun_eq_iff)
  have ans: "answer net_refresh_ok i x = Failed (Some \<lparr>status = 401, data = Prim PNull\<rparr>)"
    for i x
    by (simp add: net_refresh_ok_def)
  have a: "api net_refresh_ok sample_request ?st = api net_refresh_ok ?c2 ?st2"
    by (subst api.simps) (simp add: Let_def ri w0 ans e1 o)
  have m2: "retry ?c2 = Some True" by (simp add: set_Authorization_def)
  have ri2: "request_interceptor ?c2 ?st2 = set_Authorization (lit ''new'') ?c2"
    by (simp add: request_interceptor_def getAccessToken_def lit_def)
  from retried_at_most_once[of "sample_401 ?m" net_refresh_ok ?st2 ?c2] m2
  have w2: "wire (snd (api net_refresh_ok ?c2 ?st2))
             = wire ?st2 @ [Api_request (request_interceptor ?c2 ?st2)]"
    by blast
  have w: "wire (snd (api net_refresh_ok sample_request ?st))
      = [Api_request ?c1, Refresh_POST, Api_request (set_Authorization (lit ''new'') ?c2)]"
    by (simp only: a w2 ri2 state.select_convs append_Cons append_Nil)
  show ?thesis using c r rej w two unfolding c2 by blast
qed

section \<open>The retried request and the new token\<close>

lemma refresh_body_stores:
  assumes "fst (refresh_body r st) = Inr tok" and "js_String tok = Inr t"
  shows "(window st \<noteq> None \<longrightarrow> getAccessToken (snd (refresh_body r st)) = Some t)
       \<and> (window st = None \<longrightarrow> window (snd (refresh_body r st)) = None)"
  using assms
  by (auto simp: refresh_body_def Let_def setAccessToken_def getAccessToken_def
           split: reply.splits if_splits option.splits sum.splits)

lemma await_window:
  "window (snd (await_refreshAccessToken n st))
     = window (snd (refresh_body (refresh_answer n (fst (refreshAccessToken_call st)))
                      (snd (refreshAccessToken_call st))))"
  by (simp add: await_refreshAccessToken_def refresh_finally_def split_beta)

lemma await_fst:
  "fst (await_refreshAccessToken n st)
     = fst (refresh_body (refresh_answer n (fst (refreshAccessToken_call st)))
              (snd (refreshAccessToken_call st)))"
  by (simp add: await_refreshAccessToken_def split_beta)

lemma call_window [simp]: "window (snd (refreshAccessToken_call st)) = window st"
  by (simp add: refreshAccessToken_call_def split: option.splits)

lemma getAccessToken_window: "window a = window b \<Longrightarrow> getAccessToken a = getAccessToken b"
  by (simp add: getAccessToken_def)

lemma stored_me_window: "window a = window b \<Longrightarrow> stored_me a = stored_me b"
  by (simp add: stored_me_def)

lemma header_set_Authorization [simp]:
  "header (set_Authorization t c) (lit ''Authorization'') = Some (lit ''Bearer '' @ t)"
  by (simp add: header_def set_Authorization_def)

text \<open>
  C7. When the handler refreshes and the refresh gives a token, the request handed back to
  \<open>api\<close> has the header \<open>Authorization\<close> set to \<open>"Bearer "\<close> followed by exactly that token,
  and so has the request that the request interceptor then sends; and in the browser, where
  the handler runs, that same token is the stored access token in the state in which the
  retry is issued. The last conjunct records the guard of \<open>setAccessToken\<close>: a state that has
  no window has no storage, and the retry carries the token all the same.
\<close>

theorem retried_request_carries_new_token:
  assumes "retry_candidate err = Some original"
    and "fst (await_refreshAccessToken n st) = Inr tok"
    and "js_String tok = Inr t"
  shows "\<exists>st1. on_rejected n err st = (Reissue (set_Authorization t original), st1)
     \<and> header (set_Authorization t original) (lit ''Authorization'') = Some (lit ''Bearer '' @ t)
     \<and> header (request_interceptor (set_Authorization t original) st1) (lit ''Authorization'')
         = Some (lit ''Bearer '' @ t)
     \<and> (window st \<noteq> None \<longrightarrow> getAccessToken st1 = Some t)
     \<and> (window st = None \<longrightarrow> getAccessToken st1 = None)"
proof -
  let ?a = "await_refreshAccessToken n st"
  let ?c = "refreshAccessToken_call st"
  let ?b = "refresh_body (refresh_answer n (fst ?c)) (snd ?c)"
  have o: "on_rejected n err st = (Reissue (set_Authorization t original), snd ?a)"
    using assms by (simp add: on_rejected_refreshes resume_def)
  have fb: "fst ?b = Inr tok" using assms(2) by (simp add: await_fst)
  have w: "window (snd ?a) = window (snd ?b)" by (rule await_window)
  have stored: "window st \<noteq> None \<longrightarrow> getAccessToken (snd ?a) = Some t"
    using refresh_body_stores[OF fb assms(3)] getAccessToken_window[OF w] by simp
  have none: "window st = None \<longrightarrow> getAccessToken (snd ?a) = None"
    using refresh_body_stores[OF fb assms(3)] w by (simp add: getAccessToken_def)
  have sent: "header (request_interceptor (set_Authorization t original) (snd ?a))
                (lit ''Authorization'') = Some (lit ''Bearer '' @ t)"
  proof (cases "window st = None")
    case True
    with none show ?thesis by (simp add: request_interceptor_def)
  next
    case False
    with stored show ?thesis by (simp add: request_interceptor_def)
  qed
  show ?thesis using o stored none sent by simp
qed

text \<open>The sample request in the sample window: the retry carries \<open>"new"\<close>, which is stored.\<close>

theorem retried_request_carries_new_token_witness:
  "retry_candidate (sample_401 sample_request) = Some (sample_request\<lparr>retry := Some True\<rparr>)
   \<and> fst (await_refreshAccessToken net_refresh_ok (mem (start (Some sample_window))))
       = Inr (Prim (PStr (lit ''new'')))
   \<and> js_String (Prim (PStr (lit ''new''))) = Inr (lit ''new'')
   \<and> fst (on_rejected net_refresh_ok (sample_401 sample_request) (mem (start (Some sample_window))))
       = Reissue (set_Authorization (lit ''new'') (sample_request\<lparr>retry := Some True\<rparr>))
   \<and> getAccessToken (snd (on_rejected net_refresh_ok (sample_401 sample_request)
                            (mem (start (Some sample_window))))) = Some (lit ''new'')"
proof -
  let ?st = "mem (start (Some sample_window))"
  have a: "fst (await_refreshAccessToken net_refresh_ok ?st) = Inr (Prim (PStr (lit ''new'')))"
    by (simp add: sample_await_ok)
  have s: "js_String (Prim (PStr (lit ''new''))) = Inr (lit ''new'')" by simp
  have w: "window ?st \<noteq> None" by (simp add: start_def)
  from retried_request_carries_new_token[OF sample_candidate a s] w
  have "fst (on_rejected net_refresh_ok (sample_401 sample_request) ?st)
          = Reissue (set_Authorization (lit ''new'') (sample_request\<lparr>retry := Some True\<rparr>))
        \<and> getAccessToken (snd (on_rejected net_refresh_ok (sample_401 sample_request) ?st))
          = Some (lit ''new'')"
    by auto
  with sample_candidate a s show ?thesis by blast
qed

section \<open>A failed refresh\<close>








section \<open>Single flight\<close>

lemma refresh_body_refreshing [simp]:
  "refreshing (snd (refresh_body r st)) = refreshing st"
  by (rule refresh_body_keeps)

lemma resume_refreshing [simp]:
  "refreshing (snd (resume outcome c st)) = refreshing st"
  by (rule resume_keeps)

lemma flight_inv_same:
  "flight_inv l \<Longrightarrow>
   refreshing (mem l1) = refreshing (mem l) \<and> in_flight l1 = in_flight l
     \<and> finished l1 = finished l \<Longrightarrow> flight_inv l1"
  by (auto simp: flight_inv_def split: option.splits)

lemma fire_keeps_inv:
  assumes "flight_inv l" and "fire e l = Some l1"
  shows "flight_inv l1"
proof (cases e)
  case (Error_arrives err)
  show ?thesis
  proof (cases "retry_candidate err")
    case None
    with assms Error_arrives show ?thesis by simp
  next
    case (Some c)
    show ?thesis
    proof (cases "refreshing (mem l)")
      case None
      with assms Error_arrives Some
      have "refreshing (mem l1) = Some (promises (mem l)) \<and> in_flight l1 = in_flight l @ [promises (mem l)]
            \<and> finished l1 = finished l"
        by (auto simp: refreshAccessToken_call_def)
      moreover have "in_flight l = [] \<and> finished l = Map.empty"
        using assms(1) None by (simp add: flight_inv_def)
      ultimately show ?thesis by (simp add: flight_inv_def)
    next
      case pending: (Some p)
      with assms Error_arrives Some
      have "refreshing (mem l1) = refreshing (mem l) \<and> in_flight l1 = in_flight l
            \<and> finished l1 = finished l"
        by (auto simp: refreshAccessToken_call_def)
      with assms(1) show ?thesis by (rule flight_inv_same)
    qed
  qed
next
  case (Refresh_answered p r)
  with assms have p: "p \<in> set (in_flight l)" by (simp split: if_splits)
  obtain outcome m1 where b: "refresh_body r (mem l) = (outcome, m1)"
    by (cases "refresh_body r (mem l)")
  then have m1: "refreshing m1 = refreshing (mem l)"
    using refresh_body_refreshing[of r "mem l"] by simp
  from assms Refresh_answered p b
  have l1: "l1 = l\<lparr>mem := m1, in_flight := remove1 p (in_flight l),
                   finished := (finished l)(p \<mapsto> outcome)\<rparr>"
    by simp
  from assms(1) p show ?thesis
    unfolding l1 by (auto simp: flight_inv_def m1 split: option.splits)
next
  case (Finally_runs p)
  with assms obtain outcome where f: "finished l p = Some outcome"
    by (auto split: option.splits)
  from assms Finally_runs f
  have l1: "l1 = l\<lparr>mem := refresh_finally (mem l), finished := (finished l)(p := None),
                   settled := (settled l)(p \<mapsto> outcome)\<rparr>"
    by simp
  have pd: "p \<in> dom (finished l)" using f by (rule domI)
  have only: "in_flight l = [] \<and> dom (finished l) = {p}"
  proof (cases "refreshing (mem l)")
    case None
    with assms(1) f show ?thesis by (simp add: flight_inv_def)
  next
    case (Some q)
    with assms(1) f have "in_flight l = [] \<and> dom (finished l) = {q}"
      by (auto simp: flight_inv_def)
    with pd show ?thesis by auto
  qed
  have "dom ((finished l)(p := None)) = {}" using only by auto
  then have "(finished l)(p := None) = Map.empty" by (simp only: dom_eq_empty_conv)
  then show ?thesis
    unfolding l1 using only
    by (simp add: flight_inv_def refresh_finally_def)
next
  case (Caller_resumes i)
  with assms have i: "i < length (waiting l)" by (simp split: if_splits)
  obtain p c where pc: "waiting l ! i = (p, c)" by (cases "waiting l ! i")
  with assms Caller_resumes i obtain outcome where s: "settled l p = Some outcome"
    by (auto split: option.splits)
  obtain act m1 where r: "resume outcome c (mem l) = (act, m1)"
    by (cases "resume outcome c (mem l)")
  then have m1: "refreshing m1 = refreshing (mem l)"
    using resume_refreshing[of outcome c "mem l"] by simp
  from assms Caller_resumes i pc s r
  have "refreshing (mem l1) = refreshing (mem l) \<and> in_flight l1 = in_flight l
        \<and> finished l1 = finished l"
    by (cases act) (auto simp: m1)
  with assms(1) show ?thesis by (rule flight_inv_same)
next
  case AuthGuard_refreshes
  with assms
  have "refreshing (mem l1) = refreshing (mem l) \<and> in_flight l1 = in_flight l
        \<and> finished l1 = finished l"
    by (auto split: if_splits)
  with assms(1) show ?thesis by (rule flight_inv_same)
next
  case AuthGuard_answered
  with assms
  have "refreshing (mem l1) = refreshing (mem l) \<and> in_flight l1 = in_flight l
        \<and> finished l1 = finished l"
    by (auto split: if_splits)
  with assms(1) show ?thesis by (rule flight_inv_same)
next
  case (Other_code w)
  with assms
  have "refreshing (mem l1) = refreshing (mem l) \<and> in_flight l1 = in_flight l
        \<and> finished l1 = finished l"
    by auto
  with assms(1) show ?thesis by (rule flight_inv_same)
qed

lemma run_keeps_inv: "flight_inv l \<Longrightarrow> run es l = Some l1 \<Longrightarrow> flight_inv l1"
proof (induction es arbitrary: l)
  case Nil
  then show ?case by simp
next
  case (Cons e es)
  then obtain l2 where "fire e l = Some l2" "run es l2 = Some l1"
    by (auto split: option.splits)
  with Cons show ?case using fire_keeps_inv by blast
qed

lemma start_inv: "flight_inv (start w)"
  by (simp add: flight_inv_def start_def)

lemma inv_at_most_one:
  "flight_inv l \<Longrightarrow> length (in_flight l) \<le> 1
     \<and> (in_flight l \<noteq> [] \<longrightarrow> refreshing (mem l) = Some (hd (in_flight l)))"
  by (auto simp: flight_inv_def split: option.splits)

lemma first_caller_posts:
  assumes "retry_candidate err = Some c" and "refreshing (mem l) = None"
  shows "\<exists>l1. fire (Error_arrives err) l = Some l1
       \<and> wire (mem l1) = wire (mem l) @ [Refresh_POST]
       \<and> refreshing (mem l1) = Some (promises (mem l))
       \<and> in_flight l1 = in_flight l @ [promises (mem l)]
       \<and> waiting l1 = waiting l @ [(promises (mem l), c)]"
  using assms by (simp add: refreshAccessToken_call_def)

lemma later_caller_joins:
  assumes "retry_candidate err = Some c" and "refreshing (mem l) = Some p"
  shows "\<exists>l1. fire (Error_arrives err) l = Some l1
       \<and> wire (mem l1) = wire (mem l)
       \<and> refreshing (mem l1) = Some p
       \<and> in_flight l1 = in_flight l
       \<and> waiting l1 = waiting l @ [(p, c)]"
  using assms by (simp add: refreshAccessToken_call_def)

lemma request_interceptor_header:
  assumes "getAccessToken st = Some t \<or> \<not> token_present st"
  shows "header (request_interceptor (set_Authorization t c) st) (lit ''Authorization'')
           = Some (lit ''Bearer '' @ t)"
  using assms
  by (auto simp: request_interceptor_def token_present_def split: option.splits)

lemma caller_retries_once:
  assumes "i < length (waiting l)" and "waiting l ! i = (p, c)"
    and "settled l p = Some (Inr tok)" and "js_String tok = Inr t"
  shows "\<exists>l1. fire (Caller_resumes i) l = Some l1
       \<and> wire (mem l1)
           = wire (mem l) @ [Api_request (request_interceptor (set_Authorization t c) (mem l))]
       \<and> waiting l1 = take i (waiting l) @ drop (Suc i) (waiting l)
       \<and> handled l1 = handled l @ [(c, Reissue (set_Authorization t c))]
       \<and> (getAccessToken (mem l) = Some t \<or> \<not> token_present (mem l)
            \<longrightarrow> header (request_interceptor (set_Authorization t c) (mem l))
                  (lit ''Authorization'') = Some (lit ''Bearer '' @ t))"
  using assms request_interceptor_header[of "mem l" t c] by (simp add: resume_def)

text \<open>
  C1, as the code has it. Among the refreshes that \<open>refreshAccessToken\<close> starts, at most one
  is in flight in every state the loop can reach, and it is the one \<open>refreshing\<close> holds. A
  caller that finds \<open>refreshing\<close> empty sends the POST and stores the promise; a caller that
  finds a promise there sends nothing and awaits that promise. A caller whose promise is
  fulfilled with a token repeats its request once, with \<open>"Bearer "\<close> and the token as
  \<open>Authorization\<close> unless other code has stored another token meanwhile, and is no longer
  waiting. The refresh of \<open>AuthGuard\<close> is not among these.
\<close>

theorem single_flight_refresh:
  "(\<forall>es w l. run es (start w) = Some l
       \<longrightarrow> length (in_flight l) \<le> 1
           \<and> (in_flight l \<noteq> [] \<longrightarrow> refreshing (mem l) = Some (hd (in_flight l))))
   \<and> (\<forall>l err c. retry_candidate err = Some c \<and> refreshing (mem l) = None
       \<longrightarrow> (\<exists>l1. fire (Error_arrives err) l = Some l1
              \<and> wire (mem l1) = wire (mem l) @ [Refresh_POST]
              \<and> refreshing (mem l1) = Some (promises (mem l))
              \<and> in_flight l1 = in_flight l @ [promises (mem l)]
              \<and> waiting l1 = waiting l @ [(promises (mem l), c)]))
   \<and> (\<forall>l err c p. retry_candidate err = Some c \<and> refreshing (mem l) = Some p
       \<longrightarrow> (\<exists>l1. fire (Error_arrives err) l = Some l1
              \<and> wire (mem l1) = wire (mem l)
              \<and> refreshing (mem l1) = Some p
              \<and> in_flight l1 = in_flight l
              \<and> waiting l1 = waiting l @ [(p, c)]))
   \<and> (\<forall>l i p c tok t. i < length (waiting l) \<and> waiting l ! i = (p, c)
          \<and> settled l p = Some (Inr tok) \<and> js_String tok = Inr t
       \<longrightarrow> (\<exists>l1. fire (Caller_resumes i) l = Some l1
              \<and> wire (mem l1)
                  = wire (mem l) @ [Api_request (request_interceptor (set_Authorization t c) (mem l))]
              \<and> waiting l1 = take i (waiting l) @ drop (Suc i) (waiting l)
              \<and> handled l1 = handled l @ [(c, Reissue (set_Authorization t c))]
              \<and> (getAccessToken (mem l) = Some t \<or> \<not> token_present (mem l)
                   \<longrightarrow> header (request_interceptor (set_Authorization t c) (mem l))
                         (lit ''Authorization'') = Some (lit ''Bearer '' @ t))))"
proof -
  have reach: "length (in_flight l) \<le> 1
           \<and> (in_flight l \<noteq> [] \<longrightarrow> refreshing (mem l) = Some (hd (in_flight l)))"
    if "run es (start w) = Some l" for es w l
    using run_keeps_inv[OF start_inv that] by (rule inv_at_most_one)
  show ?thesis
  proof (intro conjI allI impI)
    fix es w l assume "run es (start w) = Some l"
    then show "length (in_flight l) \<le> 1" using reach by blast
  next
    fix es w l assume "run es (start w) = Some l" and "in_flight l \<noteq> []"
    then show "refreshing (mem l) = Some (hd (in_flight l))" using reach by blast
  next
    fix l :: loop and err c assume "retry_candidate err = Some c \<and> refreshing (mem l) = None"
    then show "\<exists>l1. fire (Error_arrives err) l = Some l1
              \<and> wire (mem l1) = wire (mem l) @ [Refresh_POST]
              \<and> refreshing (mem l1) = Some (promises (mem l))
              \<and> in_flight l1 = in_flight l @ [promises (mem l)]
              \<and> waiting l1 = waiting l @ [(promises (mem l), c)]"
      using first_caller_posts by blast
  next
    fix l :: loop and err c p assume "retry_candidate err = Some c \<and> refreshing (mem l) = Some p"
    then show "\<exists>l1. fire (Error_arrives err) l = Some l1
              \<and> wire (mem l1) = wire (mem l)
              \<and> refreshing (mem l1) = Some p
              \<and> in_flight l1 = in_flight l
              \<and> waiting l1 = waiting l @ [(p, c)]"
      using later_caller_joins by blast
  next
    fix l :: loop and i p c tok t
    assume "i < length (waiting l) \<and> waiting l ! i = (p, c)
          \<and> settled l p = Some (Inr tok) \<and> js_String tok = Inr t"
    then show "\<exists>l1. fire (Caller_resumes i) l = Some l1
              \<and> wire (mem l1)
                  = wire (mem l) @ [Api_request (request_interceptor (set_Authorization t c) (mem l))]
              \<and> waiting l1 = take i (waiting l) @ drop (Suc i) (waiting l)
              \<and> handled l1 = handled l @ [(c, Reissue (set_Authorization t c))]
              \<and> (getAccessToken (mem l) = Some t \<or> \<not> token_present (mem l)
                   \<longrightarrow> header (request_interceptor (set_Authorization t c) (mem l))
                         (lit ''Authorization'') = Some (lit ''Bearer '' @ t))"
      using caller_retries_once[of i l p c tok t] by blast
  qed
qed

text \<open>
  Two requests fail with 401 one after the other while nothing is stored: one POST is on
  the wire, both callers wait for promise 0. After the answer and the \<open>finally\<close> callback
  both repeat their request with the new token.
\<close>

theorem single_flight_refresh_witness:
  "map_option (\<lambda>l. (in_flight l, wire (mem l), map fst (waiting l)))
     (run [Error_arrives (sample_401 sample_request), Error_arrives (sample_401 sample_request)]
        (start (Some signed_out_window)))
     = Some ([0], [Refresh_POST], [0, 0])
   \<and> map_option (\<lambda>l. (length (in_flight l), api_requests (wire (mem l)), waiting l, map snd (handled l)))
     (run [Error_arrives (sample_401 sample_request), Error_arrives (sample_401 sample_request),
           Refresh_answered 0 (refresh_answer net_refresh_ok 0), Finally_runs 0,
           Caller_resumes 0, Caller_resumes 0]
        (start (Some signed_out_window)))
     = Some (0, 2, [],
             [Reissue (set_Authorization (lit ''new'') (sample_request\<lparr>retry := Some True\<rparr>)),
              Reissue (set_Authorization (lit ''new'') (sample_request\<lparr>retry := Some True\<rparr>))])"
proof -
  let ?e = "Error_arrives (sample_401 sample_request)"
  let ?c = "sample_request\<lparr>retry := Some True\<rparr>"
  let ?l0 = "start (Some signed_out_window)"
  have r0: "refreshing (mem ?l0) = None" by (simp add: start_def)
  from single_flight_refresh sample_candidate r0
  obtain l1 where f1: "fire ?e ?l0 = Some l1"
    and l1: "wire (mem l1) = wire (mem ?l0) @ [Refresh_POST]"
      "refreshing (mem l1) = Some (promises (mem ?l0))"
      "in_flight l1 = in_flight ?l0 @ [promises (mem ?l0)]"
      "waiting l1 = waiting ?l0 @ [(promises (mem ?l0), ?c)]"
    by blast
  from single_flight_refresh sample_candidate l1(2)
  obtain l2 where f2: "fire ?e l1 = Some l2"
    and l2: "wire (mem l2) = wire (mem l1)"
      "refreshing (mem l2) = Some (promises (mem ?l0))"
      "in_flight l2 = in_flight l1"
      "waiting l2 = waiting l1 @ [(promises (mem ?l0), ?c)]"
    by blast
  have run2: "run [?e, ?e] ?l0 = Some l2" by (simp only: run.simps f1 f2 option.case)
  have first: "map_option (\<lambda>l. (in_flight l, wire (mem l), map fst (waiting l))) (run [?e, ?e] ?l0)
     = Some ([0], [Refresh_POST], [0, 0])"
    unfolding run2 by (simp add: l1 l2 start_def)
  have second: "map_option (\<lambda>l. (length (in_flight l), api_requests (wire (mem l)), waiting l, map snd (handled l)))
     (run [?e, ?e, Refresh_answered 0 (refresh_answer net_refresh_ok 0), Finally_runs 0,
           Caller_resumes 0, Caller_resumes 0] ?l0)
     = Some (0, 2, [], [Reissue (set_Authorization (lit ''new'') ?c),
                        Reissue (set_Authorization (lit ''new'') ?c)])"
    by (simp add: sample_candidate start_def refreshAccessToken_call_def refresh_body_def
          net_refresh_ok_def extractAccessToken_def nc_def setAccessToken_def
          signed_out_window_def refresh_finally_def resume_def api_requests_def lit_def)
  show ?thesis using first second by blast
qed

text \<open>
  C1 as stated allows one credential refresh in flight in the whole process. While nothing
  is stored, a request fails with 401 and the handler sends the refresh POST; \<open>AuthGuard\<close>,
  which finds no token either, posts to the refresh endpoint as well, and two refreshes are
  in flight.
\<close>

theorem two_refreshes_counterexample:
  "map_option refreshes_in_flight
     (run [Error_arrives (sample_401 sample_request), AuthGuard_refreshes]
        (start (Some signed_out_window))) = Some 2"
  by (simp add: sample_candidate start_def refreshAccessToken_call_def token_present_def
        getAccessToken_def signed_out_window_def refreshes_in_flight_def)

section \<open>Idempotency keys of the mutations\<close>

lemma header_request [simp]: "header (request m u body k) Idempotency_Key = Some k"
  by (simp add: header_def request_def)

lemma stableKey_page_one: "stableKey_page prefix [PStr a] = prefix @ lit '':'' @ a"
  by (simp add: stableKey_page_def)

lemma stableKey_page_two:
  "stableKey_page prefix [PStr a, PStr b] = prefix @ lit '':'' @ a @ lit '':'' @ b"
  by (simp add: stableKey_page_def)

lemma onToggle_key:
  "header (fst (onToggle ident active w)) Idempotency_Key
     = Some (lit ''cat-patch:'' @ ident @ lit '':'' @ entropy w (drawn w))"
  by (simp add: onToggle_def randomUUID_def patchM_category_def stableKey_page_two lit_def)

lemma onRename_key:
  "header (fst (onRename ident name w)) Idempotency_Key
     = Some (lit ''cat-patch:'' @ ident @ lit '':'' @ entropy w (drawn w))"
  by (simp add: onRename_def randomUUID_def patchM_category_def stableKey_page_two lit_def)

text \<open>
  C4, as the code has it. Each of the requests for approving and rejecting a seller, marking
  a payout paid and rejecting it, deciding an order (on either page) and refunding it carries
  the key made of the entity id and the name of the action, whatever the reason, note,
  amount or receipt sent along. The creation of a category, of a product, of a coupon and of
  a promotion carries a key made of fields of the payload. The update of a product carries
  the digest of the text of its payload, the updates of a coupon and of a promotion the
  flattened payload. The update of a category carries the entity id and, in the current
  revision of the page, the next random operation id, or in the other revision the text of
  the patch.
\<close>

theorem mutations_carry_stable_keys:
  "header (approveSeller ident) Idempotency_Key = Some (IdemKey ident (lit ''approve-seller''))
   \<and> header (rejectSeller ident reason) Idempotency_Key = Some (IdemKey ident (lit ''reject-seller''))
   \<and> header (markPaid ident txid receiptUrl) Idempotency_Key
       = Some (IdemKey ident (lit ''payout-paid''))
   \<and> header (rejectPayout ident reason) Idempotency_Key = Some (IdemKey ident (lit ''payout-reject''))
   \<and> header (decideM_order ident note action) Idempotency_Key
       = Some (idempotencyKey ident (action_text action))
   \<and> header (decideM_orders ident action) Idempotency_Key
       = Some (idempotencyKey ident (action_text action))
   \<and> header (refundM ident refundAmount refundReason) Idempotency_Key
       = Some (idempotencyKey ident (lit ''refund''))
   \<and> (\<forall>c. createM_category P newName = Inr c
          \<longrightarrow> header c Idempotency_Key = Some (lit ''cat-create:'' @ toLowerCase P (trim newName)))
   \<and> header (createM_product_short p) Idempotency_Key
       = Some (lit ''product-create:'' @ sku_or_name p)
   \<and> header (createM_product p) Idempotency_Key
       = Some (lit ''product-create:'' @ sku_or_name p @ lit '':''
               @ (case categoryId p of None \<Rightarrow> [] | Some c \<Rightarrow> c) @ lit '':''
               @ js_join (lit '','') (categoryIds p) @ lit '':'' @ audience p)
   \<and> header (createM_coupon args body) Idempotency_Key = Some (stableIdemForCreateCoupon args)
   \<and> (\<forall>c. createPromoM ident payload = Inr c
          \<longrightarrow> (\<exists>flattened. flat_pairs payload = Inr flattened
                 \<and> header c Idempotency_Key
                     = Some (lit ''admin-prod-promo-create:'' @ ident @ lit '':'' @ flattened)))
   \<and> header (saveM_product P ident body) Idempotency_Key
       = Some (lit ''product-update:'' @ ident @ lit '':''
               @ url_safe (btoa (sha256 P (text_encode (JSON_stringify P body)))))
   \<and> (\<forall>c. saveM_coupon ident payload = Inr c
          \<longrightarrow> (\<exists>flattened. flat_pairs payload = Inr flattened
                 \<and> header c Idempotency_Key
                     = Some (lit ''admin-coupon-patch:'' @ ident @ lit '':'' @ flattened)))
   \<and> (\<forall>c. patchPromoM ident promoId payload = Inr c
          \<longrightarrow> (\<exists>flattened. flat_pairs payload = Inr flattened
                 \<and> header c Idempotency_Key
                     = Some (lit ''admin-prod-promo-patch:'' @ ident @ lit '':'' @ promoId
                             @ lit '':'' @ flattened)))
   \<and> header (fst (onToggle ident active w)) Idempotency_Key
       = Some (lit ''cat-patch:'' @ ident @ lit '':'' @ entropy w (drawn w))
   \<and> header (fst (onRename ident name w)) Idempotency_Key
       = Some (lit ''cat-patch:'' @ ident @ lit '':'' @ entropy w (drawn w))
   \<and> header (patchM_category_by_text P ident patch) Idempotency_Key
       = Some (lit ''cat-patch:'' @ ident @ lit '':'' @ JSON_stringify P patch)"
proof -
  have inbox: "header (approveSeller ident) Idempotency_Key = Some (IdemKey ident (lit ''approve-seller''))"
    "header (rejectSeller ident reason) Idempotency_Key = Some (IdemKey ident (lit ''reject-seller''))"
    "header (markPaid ident txid receiptUrl) Idempotency_Key = Some (IdemKey ident (lit ''payout-paid''))"
    "header (rejectPayout ident reason) Idempotency_Key = Some (IdemKey ident (lit ''payout-reject''))"
    by (simp_all add: approveSeller_def rejectSeller_def markPaid_def rejectPayout_def)
  have orders: "header (decideM_order ident note action) Idempotency_Key
       = Some (idempotencyKey ident (action_text action))"
    "header (decideM_orders ident action) Idempotency_Key
       = Some (idempotencyKey ident (action_text action))"
    "header (refundM ident refundAmount refundReason) Idempotency_Key
       = Some (idempotencyKey ident (lit ''refund''))"
    by (simp_all add: decideM_order_def decideM_orders_def refundM_def)
  have cat: "\<forall>c. createM_category P newName = Inr c
          \<longrightarrow> header c Idempotency_Key = Some (lit ''cat-create:'' @ toLowerCase P (trim newName))"
    by (auto simp: createM_category_def Let_def stableKey_page_one lit_def split: if_splits)
  have prod: "header (createM_product_short p) Idempotency_Key
       = Some (lit ''product-create:'' @ sku_or_name p)"
    "header (createM_product p) Idempotency_Key
       = Some (lit ''product-create:'' @ sku_or_name p @ lit '':''
               @ (case categoryId p of None \<Rightarrow> [] | Some c \<Rightarrow> c) @ lit '':''
               @ js_join (lit '','') (categoryIds p) @ lit '':'' @ audience p)"
    by (simp_all add: createM_product_short_def createM_product_def stableKey_page_def lit_def
          split: option.splits)
  have coupon: "header (createM_coupon args body) Idempotency_Key = Some (stableIdemForCreateCoupon args)"
    by (simp add: createM_coupon_def)
  have promo: "\<forall>c. createPromoM ident payload = Inr c
          \<longrightarrow> (\<exists>flattened. flat_pairs payload = Inr flattened
                 \<and> header c Idempotency_Key
                     = Some (lit ''admin-prod-promo-create:'' @ ident @ lit '':'' @ flattened))"
    by (auto simp: createPromoM_def stableIdem_def split: sum.splits)
  have save: "header (saveM_product P ident body) Idempotency_Key
       = Some (lit ''product-update:'' @ ident @ lit '':''
               @ url_safe (btoa (sha256 P (text_encode (JSON_stringify P body)))))"
    by (simp add: saveM_product_def idemKey_def Let_def)
  have savec: "\<forall>c. saveM_coupon ident payload = Inr c
          \<longrightarrow> (\<exists>flattened. flat_pairs payload = Inr flattened
                 \<and> header c Idempotency_Key
                     = Some (lit ''admin-coupon-patch:'' @ ident @ lit '':'' @ flattened))"
    by (auto simp: saveM_coupon_def stableIdemForPatch_def split: sum.splits)
  have patchp: "\<forall>c. patchPromoM ident promoId payload = Inr c
          \<longrightarrow> (\<exists>flattened. flat_pairs payload = Inr flattened
                 \<and> header c Idempotency_Key
                     = Some (lit ''admin-prod-promo-patch:'' @ ident @ lit '':'' @ promoId
                             @ lit '':'' @ flattened))"
    by (auto simp: patchPromoM_def stableIdem_def split: sum.splits)
  have by_text: "header (patchM_category_by_text P ident patch) Idempotency_Key
       = Some (lit ''cat-patch:'' @ ident @ lit '':'' @ JSON_stringify P patch)"
    by (simp add: patchM_category_by_text_def stableKey_page_two lit_def)
  show ?thesis
    using inbox orders cat prod coupon promo save savec patchp by_text
      onToggle_key[of ident active w] onRename_key[of ident name w]
    by (intro conjI) assumption+
qed

text \<open>
  C4 as stated derives every key from stable inputs. Toggling the category \<open>c1\<close> twice, with
  the same patch, gives two requests whose keys differ: each click draws a new operation
  id from \<open>crypto.randomUUID()\<close>.
\<close>

theorem category_update_key_counterexample:
  "header (fst (onToggle (lit ''c1'') True world_a)) Idempotency_Key
     = Some (lit ''cat-patch:c1:3b241101-e2bb-4255-8caf-4136c566a962'')
   \<and> header (fst (onToggle (lit ''c1'') True world_b)) Idempotency_Key
     = Some (lit ''cat-patch:c1:9f0c3d5e-7a41-4c1b-b2d8-0e6f5a1c7d33'')
   \<and> data_cfg (fst (onToggle (lit ''c1'') True world_a))
     = data_cfg (fst (onToggle (lit ''c1'') True world_b))
   \<and> header (fst (onToggle (lit ''c1'') True world_a)) Idempotency_Key
     \<noteq> header (fst (onToggle (lit ''c1'') True world_b)) Idempotency_Key"
  by (simp add: onToggle_def randomUUID_def patchM_category_def stableKey_page_def
        header_def request_def world_a_def world_b_def lit_def)

lemma sample_flat_pairs: "flat_pairs sample_payload = Inr (lit ''active=true&value=10'')"
  by (simp add: flat_pairs_def sample_payload_def js_sort_def compare_strings_def lit_def)

text \<open>
  Creating the category \<open>" Hair "\<close>, and creating, then saving, a promotion and a coupon
  with the sample payload: the keys, through the theorem.
\<close>

theorem mutations_carry_stable_keys_witness:
  "createM_category sample_platform (lit '' Hair '')
     = Inr (request ''post'' (lit ''/categories'') (Obj [(lit ''name'', Prim (PStr (lit ''Hair'')))])
              (lit ''cat-create:hair''))
   \<and> createPromoM (lit ''p1'') sample_payload
     = Inr (request ''post'' (lit ''/admin/products/p1/promotions'') (Obj sample_payload)
              (lit ''admin-prod-promo-create:p1:active=true&value=10''))
   \<and> saveM_coupon (lit ''p1'') sample_payload
     = Inr (request ''patch'' (lit ''/admin/coupons/p1'') (Obj sample_payload)
              (lit ''admin-coupon-patch:p1:active=true&value=10''))
   \<and> patchPromoM (lit ''p1'') (lit ''m2'') sample_payload
     = Inr (request ''patch'' (lit ''/admin/products/p1/promotions/m2'') (Obj sample_payload)
              (lit ''admin-prod-promo-patch:p1:m2:active=true&value=10''))
   \<and> header (saveM_product sample_platform (lit ''p1'') (Obj sample_payload)) Idempotency_Key
     = Some (lit ''product-update:p1:-_-_'')"
proof -
  note T = mutations_carry_stable_keys
    [where P = sample_platform and newName = "lit '' Hair ''" and ident = "lit ''p1''"
       and payload = sample_payload and promoId = "lit ''m2''" and body = "Obj sample_payload"]
  have tr: "trim (lit '' Hair '') = lit ''Hair''"
    by (simp add: trim_def lit_def is_ws_def)
  have lo: "toLowerCase sample_platform (lit ''Hair'') = lit ''hair''"
    by (simp add: sample_platform_def lit_def)
  obtain c where c: "createM_category sample_platform (lit '' Hair '') = Inr c"
    by (simp add: createM_category_def Let_def tr) (simp add: lit_def)
  with T have kc: "header c Idempotency_Key = Some (lit ''cat-create:hair'')"
    unfolding tr lo by (simp add: lit_def)
  have cat: "createM_category sample_platform (lit '' Hair '')
     = Inr (request ''post'' (lit ''/categories'') (Obj [(lit ''name'', Prim (PStr (lit ''Hair'')))])
              (lit ''cat-create:hair''))"
    using c kc
    by (auto simp: createM_category_def Let_def tr request_def header_def split: if_splits)
  obtain c1 where c1: "createPromoM (lit ''p1'') sample_payload = Inr c1"
    by (simp add: createPromoM_def stableIdem_def sample_flat_pairs)
  with T have k1: "header c1 Idempotency_Key
                     = Some (lit ''admin-prod-promo-create:p1:active=true&value=10'')"
    by (auto simp: sample_flat_pairs lit_def)
  have promo: "createPromoM (lit ''p1'') sample_payload
     = Inr (request ''post'' (lit ''/admin/products/p1/promotions'') (Obj sample_payload)
              (lit ''admin-prod-promo-create:p1:active=true&value=10''))"
    using c1 k1
    by (auto simp: createPromoM_def stableIdem_def sample_flat_pairs request_def header_def lit_def)
  obtain c2 where c2: "saveM_coupon (lit ''p1'') sample_payload = Inr c2"
    by (simp add: saveM_coupon_def stableIdemForPatch_def sample_flat_pairs)
  with T have k2: "header c2 Idempotency_Key
                     = Some (lit ''admin-coupon-patch:p1:active=true&value=10'')"
    by (auto simp: sample_flat_pairs lit_def)
  have coupon: "saveM_coupon (lit ''p1'') sample_payload
     = Inr (request ''patch'' (lit ''/admin/coupons/p1'') (Obj sample_payload)
              (lit ''admin-coupon-patch:p1:active=true&value=10''))"
    using c2 k2
    by (auto simp: saveM_coupon_def stableIdemForPatch_def sample_flat_pairs request_def
          header_def lit_def)
  obtain c3 where c3: "patchPromoM (lit ''p1'') (lit ''m2'') sample_payload = Inr c3"
    by (simp add: patchPromoM_def stableIdem_def sample_flat_pairs)
  with T have k3: "header c3 Idempotency_Key
                     = Some (lit ''admin-prod-promo-patch:p1:m2:active=true&value=10'')"
    by (auto simp: sample_flat_pairs lit_def)
  have patchp: "patchPromoM (lit ''p1'') (lit ''m2'') sample_payload
     = Inr (request ''patch'' (lit ''/admin/products/p1/promotions/m2'') (Obj sample_payload)
              (lit ''admin-prod-promo-patch:p1:m2:active=true&value=10''))"
    using c3 k3
    by (auto simp: patchPromoM_def stableIdem_def sample_flat_pairs request_def header_def lit_def)
  from T have "header (saveM_product sample_platform (lit ''p1'') (Obj sample_payload)) Idempotency_Key
       = Some (lit ''product-update:'' @ lit ''p1'' @ lit '':''
               @ url_safe (btoa (sha256 sample_platform
                   (text_encode (JSON_stringify sample_platform (Obj sample_payload))))))"
    by blast
  then have save: "header (saveM_product sample_platform (lit ''p1'') (Obj sample_payload))
       Idempotency_Key = Some (lit ''product-update:p1:-_-_'')"
    by (simp add: sample_platform_def url_safe_def b64_digit_def lit_def)
  show ?thesis using cat promo coupon patchp save by blast
qed

end
